theory Spec2Isabelle
  imports Main "HOL-Library.Multiset"
begin

section \<open>Data model\<close>

text \<open>
  An ObjectId is twelve bytes, compared bytewise; it is modelled by the number those
  bytes spell. A stored date is the number of milliseconds since the epoch.
\<close>

type_synonym oid = nat
type_synonym date = int

text \<open>
  A document of the users collection. The task routes read only the id, the name and
  the email of a user (\<open>populate('...', 'name email')\<close>, the leaderboard projection).
\<close>

record user =
  u_id :: oid
  u_name :: string
  u_email :: string

text \<open>
  A task document, as \<open>TaskSchema\<close> declares it: \<open>title\<close> and \<open>createdBy\<close> are
  required, \<open>status\<close> and \<open>priority\<close> have defaults, the other paths may be unset.
  \<open>task_id\<close> is the document's \<open>_id\<close> and \<open>image_path\<close> its \<open>image\<close>.
  \<open>createdAt\<close> and \<open>updatedAt\<close> are the two paths of the schema's \<open>timestamps\<close>
  option, which \<open>save()\<close> maintains. The version key is not part of the model: no
  route reads or changes it.
\<close>

record task =
  task_id :: oid
  title :: string
  description :: "string option"
  status :: string
  priority :: string
  dueDate :: "date option"
  image_path :: "string option"
  createdBy :: oid
  assignedTo :: "oid option"
  createdAt :: date
  updatedAt :: date

text \<open>The two collections; the list order is the store's natural order.\<close>

record store =
  tasks :: "task list"
  users :: "user list"

text \<open>\<open>req.user\<close>, as the authentication middleware leaves it: the token's id and role.\<close>

record req_user =
  user_id :: oid
  user_role :: string

text \<open>
  \<open>req.body\<close> of a create or update request, destructured into its six fields. A field
  is absent (\<open>None\<close>) or a string; the empty string is JavaScript's falsy string.
\<close>

record task_body =
  body_title :: "string option"
  body_description :: "string option"
  body_status :: "string option"
  body_priority :: "string option"
  body_dueDate :: "string option"
  body_assignedTo :: "string option"

text \<open>\<open>req.query\<close> of the list request.\<close>

record list_query =
  query_status :: "string option"
  query_priority :: "string option"
  query_dueDate :: "string option"
  query_sort :: "string option"

text \<open>
  String functions of the libraries the routes call, taken as parameters: the date
  validator of express-validator, the casts Mongoose applies to a string that is
  stored in a Date or ObjectId path (\<open>None\<close>: the cast raises), JavaScript's
  \<open>new Date(s)\<close> (\<open>None\<close>: an invalid date), and whether the store accepts a
  path as a sort key (it refuses the empty path, for one).
\<close>

record lib =
  isISO8601 :: "string \<Rightarrow> bool"
  castDate :: "string \<Rightarrow> date option"
  castObjectId :: "string \<Rightarrow> oid option"
  newDate :: "string \<Rightarrow> date option"
  sortable :: "string \<Rightarrow> bool"

text \<open>The responses that are not a success: status 400, 403, 404 and 500.\<close>

datatype error =
  ValidationError "string list"
  | AuthorizationError
  | NotFoundError
  | ServerError

section \<open>The schema\<close>

definition status_enum :: "string list" where
  "status_enum = [''To Do'', ''In Progress'', ''Completed'']"

definition priority_enum :: "string list" where
  "priority_enum = [''Low'', ''Medium'', ''High'']"

text \<open>
  The validation \<open>save()\<close> runs on a document: the required title is a non-empty string,
  status and priority are members of their enums.
\<close>

definition validate_task :: "task \<Rightarrow> bool" where
  "validate_task t =
     (title t \<noteq> [] \<and> status t \<in> set status_enum
      \<and> priority t \<in> set priority_enum)"

section \<open>Store operations\<close>

definition findById :: "task list \<Rightarrow> oid \<Rightarrow> task option" where
  "findById ts i = find (\<lambda>t. task_id t = i) ts"

definition findUserById :: "user list \<Rightarrow> oid \<Rightarrow> user option" where
  "findUserById us i = find (\<lambda>u. u_id u = i) us"

text \<open>\<open>task.deleteOne()\<close>: the store removes the document with the task's \<open>_id\<close>.\<close>

fun deleteOne :: "task list \<Rightarrow> oid \<Rightarrow> task list" where
  "deleteOne [] i = []"
| "deleteOne (x # xs) i = (if task_id x = i then xs else x # deleteOne xs i)"

text \<open>\<open>task.save()\<close> of a loaded document: the store writes it over the one with its \<open>_id\<close>.\<close>

fun updateOne :: "task list \<Rightarrow> task \<Rightarrow> task list" where
  "updateOne [] t = []"
| "updateOne (x # xs) t =
     (if task_id x = task_id t then t # xs else x # updateOne xs t)"

section \<open>Task mutation\<close>

text \<open>A value of \<open>req.body\<close> that is truthy: a present, non-empty string.\<close>

definition truthy :: "string option \<Rightarrow> string option" where
  "truthy v = (case v of None \<Rightarrow> None | Some s \<Rightarrow> if s = [] then None else Some s)"

text \<open>
  The guard of \<open>router.put('/:id')\<close> and \<open>router.delete('/:id')\<close>:
  \<open>task.createdBy.toString() !== req.user.id && req.user.role !== 'admin'\<close>.
\<close>

definition not_authorized :: "req_user \<Rightarrow> task \<Rightarrow> bool" where
  "not_authorized u t = (createdBy t \<noteq> user_id u \<and> user_role u \<noteq> ''admin'')"

text \<open>
  The six assignments of the update route, \<open>task.f = f || task.f\<close>. A truthy string
  assigned to \<open>dueDate\<close> or \<open>assignedTo\<close> is cast by the schema; a failed cast makes
  \<open>save()\<close> reject, which is \<open>None\<close> here.
\<close>

definition assign_fields :: "lib \<Rightarrow> task_body \<Rightarrow> task \<Rightarrow> task option" where
  "assign_fields L b t =
     (let t1 = t\<lparr>title := (case truthy (body_title b) of Some s \<Rightarrow> s | None \<Rightarrow> title t)\<rparr>;
          t2 = t1\<lparr>description :=
                 (case truthy (body_description b) of Some s \<Rightarrow> Some s | None \<Rightarrow> description t)\<rparr>;
          t3 = t2\<lparr>status := (case truthy (body_status b) of Some s \<Rightarrow> s | None \<Rightarrow> status t)\<rparr>;
          t4 = t3\<lparr>priority :=
                 (case truthy (body_priority b) of Some s \<Rightarrow> s | None \<Rightarrow> priority t)\<rparr>
      in case (case truthy (body_dueDate b) of
                 Some s \<Rightarrow> map_option Some (castDate L s)
               | None \<Rightarrow> Some (dueDate t)) of
           None \<Rightarrow> None
         | Some d \<Rightarrow>
             (case (case truthy (body_assignedTo b) of
                      Some s \<Rightarrow> map_option Some (castObjectId L s)
                    | None \<Rightarrow> Some (assignedTo t)) of
                None \<Rightarrow> None
              | Some a \<Rightarrow> Some (t4\<lparr>dueDate := d, assignedTo := a\<rparr>)))"

text \<open>
  \<open>task.save()\<close> of a loaded document, under the schema's \<open>timestamps\<close> option: when
  an assignment has changed a path, \<open>updatedAt\<close> becomes the time of the save; a
  document that is as it was loaded is not written.
\<close>

definition touch :: "date \<Rightarrow> task \<Rightarrow> task \<Rightarrow> task" where
  "touch now t t' = (if t' = t then t' else t'\<lparr>updatedAt := now\<rparr>)"

text \<open>
  \<open>router.put('/:id')\<close>. \<open>pid\<close> is \<open>req.params.id\<close>; a string that is no ObjectId
  makes \<open>findById\<close> raise, and every exception in the handler is answered with 500.
  \<open>now\<close> is the time of the request.
\<close>

definition updateTask ::
  "lib \<Rightarrow> date \<Rightarrow> req_user \<Rightarrow> string \<Rightarrow> task_body \<Rightarrow> store
     \<Rightarrow> (error + task) \<times> store" where
  "updateTask L now u pid b st =
     (case castObjectId L pid of
        None \<Rightarrow> (Inl ServerError, st)
      | Some i \<Rightarrow>
          (case findById (tasks st) i of
             None \<Rightarrow> (Inl NotFoundError, st)
           | Some t \<Rightarrow>
               if not_authorized u t then (Inl AuthorizationError, st)
               else (case assign_fields L b t of
                       None \<Rightarrow> (Inl ServerError, st)
                     | Some t' \<Rightarrow>
                         if validate_task t'
                         then (Inr (touch now t t'),
                               st\<lparr>tasks := updateOne (tasks st) (touch now t t')\<rparr>)
                         else (Inl ServerError, st))))"

text \<open>\<open>router.delete('/:id')\<close>; the success body is \<open>{msg: 'Task deleted'}\<close>.\<close>

definition deleteTask ::
  "lib \<Rightarrow> req_user \<Rightarrow> string \<Rightarrow> store \<Rightarrow> (error + string) \<times> store" where
  "deleteTask L u pid st =
     (case castObjectId L pid of
        None \<Rightarrow> (Inl ServerError, st)
      | Some i \<Rightarrow>
          (case findById (tasks st) i of
             None \<Rightarrow> (Inl NotFoundError, st)
           | Some t \<Rightarrow>
               if not_authorized u t then (Inl AuthorizationError, st)
               else (Inr ''Task deleted'', st\<lparr>tasks := deleteOne (tasks st) (task_id t)\<rparr>)))"

section \<open>Task creation\<close>

text \<open>
  The validator \<open>isMongoId\<close> of express-validator accepts a hexadecimal string of 24
  characters. Hexadecimal is one or more hexadecimal digits in either case, after an
  optional prefix \<open>0x\<close> or \<open>0h\<close>.
\<close>

definition hex_digit :: "char \<Rightarrow> nat option" where
  "hex_digit c =
     (let n = (of_char c :: nat) in
      if 48 \<le> n \<and> n \<le> 57 then Some (n - 48)
      else if 97 \<le> n \<and> n \<le> 102 then Some (n - 87)
      else if 65 \<le> n \<and> n \<le> 70 then Some (n - 55)
      else None)"

definition hex_digits :: "string \<Rightarrow> bool" where
  "hex_digits s = (s \<noteq> [] \<and> list_all (\<lambda>c. hex_digit c \<noteq> None) s)"

definition isHexadecimal :: "string \<Rightarrow> bool" where
  "isHexadecimal s =
     (hex_digits s
      \<or> (take 2 s \<in> set [''0x'', ''0X'', ''0h'', ''0H''] \<and> hex_digits (drop 2 s)))"

definition isMongoId :: "string \<Rightarrow> bool" where
  "isMongoId s = (isHexadecimal s \<and> length s = 24)"

text \<open>
  The validator chain of \<open>router.post('/')\<close>: \<open>check('title').not().isEmpty()\<close> reads a missing
  field as the empty string; \<open>optional()\<close> skips a check when the field is absent.
\<close>

definition validation_errors :: "lib \<Rightarrow> task_body \<Rightarrow> string list" where
  "validation_errors L b =
     (case body_title b of
        None \<Rightarrow> [''Title is required'']
      | Some s \<Rightarrow> if s = [] then [''Title is required''] else [])
     @ (case body_dueDate b of
          None \<Rightarrow> []
        | Some s \<Rightarrow> if isISO8601 L s then [] else [''Due date must be a valid date''])
     @ (case body_assignedTo b of
          None \<Rightarrow> []
        | Some s \<Rightarrow>
            if isMongoId s then [] else [''Assigned user ID must be a valid ObjectID''])"

text \<open>
  \<open>new Task({title, description, status, priority, dueDate, createdBy: req.user.id,
  assignedTo: assignedTo || req.user.id, image})\<close>. The schema fills the defaults of
  \<open>status\<close> and \<open>priority\<close> where the field is undefined, and casts \<open>dueDate\<close> (the
  empty string to no date) and \<open>assignedTo\<close>; a failed cast makes \<open>save()\<close> reject, which
  is \<open>None\<close> here. An undefined title is the empty title, which validation rejects.
  \<open>newId\<close> is the \<open>_id\<close> the driver generates for the document, and \<open>now\<close> the
  time of the request, which \<open>save()\<close> writes to both timestamps of a new document.
\<close>

definition new_Task ::
  "lib \<Rightarrow> date \<Rightarrow> oid \<Rightarrow> req_user \<Rightarrow> task_body \<Rightarrow> string option \<Rightarrow> task option" where
  "new_Task L now newId u b img =
     (case (case body_dueDate b of
              None \<Rightarrow> Some None
            | Some s \<Rightarrow> if s = [] then Some None else map_option Some (castDate L s)) of
        None \<Rightarrow> None
      | Some d \<Rightarrow>
          (case (case truthy (body_assignedTo b) of
                   Some s \<Rightarrow> castObjectId L s
                 | None \<Rightarrow> Some (user_id u)) of
             None \<Rightarrow> None
           | Some a \<Rightarrow>
               Some \<lparr>task_id = newId,
                     title = (case body_title b of Some s \<Rightarrow> s | None \<Rightarrow> []),
                     description = body_description b,
                     status = (case body_status b of Some s \<Rightarrow> s | None \<Rightarrow> ''To Do''),
                     priority = (case body_priority b of Some s \<Rightarrow> s | None \<Rightarrow> ''Low''),
                     dueDate = d,
                     image_path = img,
                     createdBy = user_id u,
                     assignedTo = Some a,
                     createdAt = now,
                     updatedAt = now\<rparr>))"

text \<open>
  \<open>await task.save()\<close> of the new document and the 201 response. The store refuses a
  second document with the same \<open>_id\<close>.
\<close>

definition save_new :: "task option \<Rightarrow> store \<Rightarrow> (error + task) \<times> store" where
  "save_new doc st =
     (case doc of
        None \<Rightarrow> (Inl ServerError, st)
      | Some t \<Rightarrow>
          if validate_task t \<and> task_id t \<notin> set (map task_id (tasks st))
          then (Inr t, st\<lparr>tasks := tasks st @ [t]\<rparr>)
          else (Inl ServerError, st))"

text \<open>
  \<open>router.post('/')\<close> of the routes with the leaderboard. \<open>file\<close> is
  \<open>req.file.filename\<close> when an image was uploaded. After the save the handler only logs
  a notification, reading the assigned user it has already found.
\<close>

definition createTask ::
  "lib \<Rightarrow> date \<Rightarrow> req_user \<Rightarrow> task_body \<Rightarrow> string option \<Rightarrow> oid \<Rightarrow> store
     \<Rightarrow> (error + task) \<times> store" where
  "createTask L now u b file newId st =
     (let errors = validation_errors L b in
      if errors \<noteq> [] then (Inl (ValidationError errors), st)
      else
        (case (case truthy (body_assignedTo b) of
                 None \<Rightarrow> None
               | Some s \<Rightarrow>
                   (case castObjectId L s of
                      None \<Rightarrow> Some ServerError
                    | Some a \<Rightarrow>
                        (case findUserById (users st) a of
                           None \<Rightarrow> Some (ValidationError [''Assigned user does not exist''])
                         | Some assignedUser \<Rightarrow> None))) of
           Some e \<Rightarrow> (Inl e, st)
         | None \<Rightarrow>
             save_new
               (new_Task L now newId u b (map_option (\<lambda>f. ''/uploads/'' @ f) file)) st))"

text \<open>
  \<open>router.post('/')\<close> of \<open>routes/taskRoutes.js\<close>: no check of \<open>assignedTo\<close>, and the
  image is \<open>req.file.path\<close>.
\<close>

definition createTask_simple ::
  "lib \<Rightarrow> date \<Rightarrow> req_user \<Rightarrow> task_body \<Rightarrow> string option \<Rightarrow> oid \<Rightarrow> store
     \<Rightarrow> (error + task) \<times> store" where
  "createTask_simple L now u b file newId st =
     (let errors =
            (case body_title b of
               None \<Rightarrow> [''Title is required'']
             | Some s \<Rightarrow> if s = [] then [''Title is required''] else [])
            @ (case body_dueDate b of
                 None \<Rightarrow> []
               | Some s \<Rightarrow> if isISO8601 L s then [] else [''Due date must be a valid date''])
      in if errors \<noteq> [] then (Inl (ValidationError errors), st)
         else save_new
                (new_Task L now newId u b (map_option (\<lambda>f. ''uploads/'' @ f) file)) st)"

section \<open>The store's sort\<close>

text \<open>
  \<open>Task.find(query).sort(sortOptions)\<close> sorts in the store, not in the routes; the
  store's documented order is modelled here. A path holds a value of one of four
  kinds, compared first by kind: a missing path and null lowest, then strings, then
  ObjectIds, then dates. Strings compare bytewise. So an ascending sort on \<open>dueDate\<close>
  lists the tasks with no due date first and a descending sort lists them last. A path
  that no task has reads as missing.
\<close>

datatype bson = BNull | BString string | BObjectId oid | BDate date

fun bson_rank :: "bson \<Rightarrow> nat" where
  "bson_rank BNull = 0"
| "bson_rank (BString s) = 1"
| "bson_rank (BObjectId i) = 2"
| "bson_rank (BDate d) = 3"

fun str_lt :: "string \<Rightarrow> string \<Rightarrow> bool" where
  "str_lt [] [] = False"
| "str_lt [] (y # ys) = True"
| "str_lt (x # xs) [] = False"
| "str_lt (x # xs) (y # ys) =
     (if x = y then str_lt xs ys else (of_char x :: nat) < of_char y)"

fun bson_lt :: "bson \<Rightarrow> bson \<Rightarrow> bool" where
  "bson_lt (BString a) (BString b) = str_lt a b"
| "bson_lt (BObjectId a) (BObjectId b) = (a < b)"
| "bson_lt (BDate a) (BDate b) = (a < b)"
| "bson_lt x y = (bson_rank x < bson_rank y)"

definition opt_string :: "string option \<Rightarrow> bson" where
  "opt_string v = (case v of None \<Rightarrow> BNull | Some s \<Rightarrow> BString s)"

definition field_value :: "string \<Rightarrow> task \<Rightarrow> bson" where
  "field_value f t =
     (if f = ''_id'' then BObjectId (task_id t)
      else if f = ''title'' then BString (title t)
      else if f = ''description'' then opt_string (description t)
      else if f = ''status'' then BString (status t)
      else if f = ''priority'' then BString (priority t)
      else if f = ''dueDate'' then (case dueDate t of None \<Rightarrow> BNull | Some d \<Rightarrow> BDate d)
      else if f = ''image'' then opt_string (image_path t)
      else if f = ''createdBy'' then BObjectId (createdBy t)
      else if f = ''assignedTo'' then
        (case assignedTo t of None \<Rightarrow> BNull | Some i \<Rightarrow> BObjectId i)
      else if f = ''createdAt'' then BDate (createdAt t)
      else if f = ''updatedAt'' then BDate (updatedAt t)
      else BNull)"

text \<open>
  The order a sort specification \<open>{f1: d1, f2: d2, ...}\<close> puts on documents: the first
  key on which two documents differ decides, ascending for direction 1 and descending
  for direction -1.
\<close>

fun doc_le :: "(string \<times> int) list \<Rightarrow> task \<Rightarrow> task \<Rightarrow> bool" where
  "doc_le [] a b = True"
| "doc_le ((f, d) # ks) a b =
     (if field_value f a = field_value f b then doc_le ks a b
      else if d < 0 then bson_lt (field_value f b) (field_value f a)
      else bson_lt (field_value f a) (field_value f b))"

text \<open>
  The sort itself, as a stable insertion sort on the natural order. The store fixes no
  order among documents the specification does not separate; here they keep their
  natural order, and the empty specification sorts nothing.
\<close>

fun insort_by :: "('a \<Rightarrow> 'a \<Rightarrow> bool) \<Rightarrow> 'a \<Rightarrow> 'a list \<Rightarrow> 'a list" where
  "insort_by le x [] = [x]"
| "insort_by le x (y # ys) = (if le x y then x # y # ys else y # insort_by le x ys)"

definition sort_by :: "('a \<Rightarrow> 'a \<Rightarrow> bool) \<Rightarrow> 'a list \<Rightarrow> 'a list" where
  "sort_by le xs = foldr (insort_by le) xs []"

section \<open>Task listing\<close>

text \<open>The query object of \<open>router.get('/')\<close>; \<open>q_or\<close> is the id of its \<open>$or\<close> clause.\<close>

record task_query =
  q_or :: "oid option"
  q_status :: "string option"
  q_priority :: "string option"
  q_dueDate :: "date option"

definition matches :: "task_query \<Rightarrow> task \<Rightarrow> bool" where
  "matches q t =
     ((case q_or q of
         None \<Rightarrow> True
       | Some i \<Rightarrow> createdBy t = i \<or> assignedTo t = Some i)
      \<and> (case q_status q of None \<Rightarrow> True | Some s \<Rightarrow> status t = s)
      \<and> (case q_priority q of None \<Rightarrow> True | Some p \<Rightarrow> priority t = p)
      \<and> (case q_dueDate q of None \<Rightarrow> True | Some d \<Rightarrow> dueDate t = Some d))"

text \<open>
  Building the query. With an invalid date in \<open>query.dueDate\<close> the store's cast of
  the query raises, which is \<open>None\<close> here.
\<close>

definition build_query :: "lib \<Rightarrow> req_user \<Rightarrow> list_query \<Rightarrow> task_query option" where
  "build_query L u rq =
     (let q0 = \<lparr>q_or = (if user_role u \<noteq> ''admin'' then Some (user_id u) else None),
                q_status = truthy (query_status rq),
                q_priority = truthy (query_priority rq),
                q_dueDate = None\<rparr>
      in case truthy (query_dueDate rq) of
           None \<Rightarrow> Some q0
         | Some s \<Rightarrow> map_option (\<lambda>d. q0\<lparr>q_dueDate := Some d\<rparr>) (newDate L s))"

definition startsWith :: "string \<Rightarrow> string \<Rightarrow> bool" where
  "startsWith s p = (take (length p) s = p)"

fun includes_str :: "string \<Rightarrow> string \<Rightarrow> bool" where
  "includes_str [] p = (p = [])"
| "includes_str (c # cs) p = (startsWith (c # cs) p \<or> includes_str cs p)"

definition sort_direction :: "string \<Rightarrow> int" where
  "sort_direction s = (if startsWith s ''-'' then - 1 else 1)"

definition sort_field :: "string \<Rightarrow> string" where
  "sort_field s = (if startsWith s ''-'' then drop 1 s else s)"

definition sort_options :: "string option \<Rightarrow> (string \<times> int) list" where
  "sort_options sortParam =
     (case truthy sortParam of
        None \<Rightarrow> []
      | Some s \<Rightarrow>
          (let sortField = sort_field s;
               sortDirection = sort_direction s
           in (sortField, sortDirection)
              # (if sortField = ''dueDate'' then [(''_id'', sortDirection)] else [])))"

text \<open>
  The store refuses the query when the path the request sorts on is no sort key, as for
  \<open>sort=-\<close>, whose path is empty; the route answers 500 then.
\<close>

definition sort_refused :: "lib \<Rightarrow> string option \<Rightarrow> bool" where
  "sort_refused L sortParam =
     (case truthy sortParam of
        None \<Rightarrow> False
      | Some s \<Rightarrow> if sortable L (sort_field s) then False else True)"

text \<open>
  A populated reference is the referenced user's \<open>name\<close> and \<open>email\<close> (with its id), or
  null when no such user exists. \<open>view_task\<close> is the document a listed task comes from.
\<close>

datatype user_ref = Unpopulated oid | Populated "user option"

record task_view =
  view_task :: task
  view_createdBy :: user_ref
  view_assignedTo :: user_ref

definition populate :: "user list \<Rightarrow> oid option \<Rightarrow> user_ref" where
  "populate us r = Populated (case r of None \<Rightarrow> None | Some i \<Rightarrow> findUserById us i)"

definition populate_both :: "user list \<Rightarrow> task \<Rightarrow> task_view" where
  "populate_both us t =
     \<lparr>view_task = t,
      view_createdBy = populate us (Some (createdBy t)),
      view_assignedTo = populate us (assignedTo t)\<rparr>"

text \<open>
  \<open>router.get('/')\<close> of the routes with the leaderboard: the query, the sort in the
  store, and the reordering of the result when the sort parameter contains
  \<open>dueDate\<close>. \<open>sortDirection\<close> is assigned whenever \<open>sort\<close> is truthy, which the
  reordering requires too.
\<close>

definition listTasks :: "lib \<Rightarrow> req_user \<Rightarrow> list_query \<Rightarrow> store \<Rightarrow> error + task_view list" where
  "listTasks L u rq st =
     (case build_query L u rq of
        None \<Rightarrow> Inl ServerError
      | Some q \<Rightarrow>
          if sort_refused L (query_sort rq) then Inl ServerError
          else
          (let found =
                 map (populate_both (users st))
                   (sort_by (doc_le (sort_options (query_sort rq)))
                      (filter (matches q) (tasks st)))
           in case truthy (query_sort rq) of
                None \<Rightarrow> Inr found
              | Some s \<Rightarrow>
                  if includes_str s ''dueDate'' then
                    (let withDueDate = filter (\<lambda>v. dueDate (view_task v) \<noteq> None) found;
                         withoutDueDate = filter (\<lambda>v. dueDate (view_task v) = None) found
                     in Inr (if sort_direction s = - 1
                             then rev withDueDate @ withoutDueDate
                             else withDueDate @ withoutDueDate))
                  else Inr found))"

text \<open>
  \<open>router.get('/')\<close> of \<open>routes/taskRoutes.js\<close>: all tasks for an admin, with only
  \<open>assignedTo\<close> populated; the tasks created by or assigned to the requester otherwise.
\<close>

definition listTasks_simple :: "req_user \<Rightarrow> store \<Rightarrow> error + task_view list" where
  "listTasks_simple u st =
     (if user_role u = ''admin'' then
        Inr (map (\<lambda>t. \<lparr>view_task = t,
                        view_createdBy = Unpopulated (createdBy t),
                        view_assignedTo = populate (users st) (assignedTo t)\<rparr>)
               (tasks st))
      else
        Inr (map (populate_both (users st))
               (filter (\<lambda>t. createdBy t = user_id u \<or> assignedTo t = Some (user_id u))
                  (tasks st))))"

section \<open>Leaderboard\<close>

record leaderboard_row =
  row_id :: oid
  row_name :: string
  row_email :: string
  completedTasks :: nat

text \<open>
  The \<open>$group\<close> stage with \<open>$sum: 1\<close>: one group for each distinct key, counting the
  documents that carry it. The store fixes no order of the groups; here they come in
  the order of their first document.
\<close>

fun add_to_group :: "'k \<Rightarrow> ('k \<times> nat) list \<Rightarrow> ('k \<times> nat) list" where
  "add_to_group k [] = [(k, 1)]"
| "add_to_group k ((k', n) # gs) =
     (if k = k' then (k', Suc n) # gs else (k', n) # add_to_group k gs)"

definition group_count :: "'k list \<Rightarrow> ('k \<times> nat) list" where
  "group_count ks = foldl (\<lambda>gs k. add_to_group k gs) [] ks"

text \<open>
  \<open>$lookup\<close> into the users, \<open>$unwind\<close> and \<open>$project\<close>: one row for each user whose
  \<open>_id\<close> is the group's key; a group of tasks with no assignee matches no user.
\<close>

definition lookup_unwind :: "user list \<Rightarrow> oid option \<times> nat \<Rightarrow> leaderboard_row list" where
  "lookup_unwind us g =
     (case fst g of
        None \<Rightarrow> []
      | Some i \<Rightarrow>
          map (\<lambda>u. \<lparr>row_id = i, row_name = u_name u, row_email = u_email u,
                     completedTasks = snd g\<rparr>)
            (filter (\<lambda>u. u_id u = i) us))"

text \<open>
  \<open>router.get('/leaderboard')\<close>: the pipeline \<open>$match\<close>, \<open>$group\<close>, \<open>$lookup\<close>,
  \<open>$unwind\<close>, \<open>$project\<close>, \<open>$sort: {completedTasks: -1}\<close>.
\<close>

definition getLeaderboard :: "store \<Rightarrow> error + leaderboard_row list" where
  "getLeaderboard st =
     Inr (sort_by (\<lambda>a b. completedTasks b \<le> completedTasks a)
            (concat (map (lookup_unwind (users st))
               (group_count
                  (map assignedTo (filter (\<lambda>t. status t = ''Completed'') (tasks st)))))))"

section \<open>Example data\<close>

text \<open>
  An instance of the library functions for running the routes on examples: a string of
  24 hexadecimal digits casts to an ObjectId, two calendar dates are known, and a sort
  key is a path of non-empty components, none of which starts with \<open>$\<close>.
\<close>

fun field_path :: "bool \<Rightarrow> string \<Rightarrow> bool" where
  "field_path start [] = (\<not> start)"
| "field_path start (c # cs) =
     (if c = CHR ''.'' then \<not> start \<and> field_path True cs
      else if start \<and> c = CHR ''$'' then False
      else field_path False cs)"

fun hex_value :: "nat \<Rightarrow> string \<Rightarrow> nat option" where
  "hex_value acc [] = Some acc"
| "hex_value acc (c # cs) =
     (case hex_digit c of None \<Rightarrow> None | Some d \<Rightarrow> hex_value (16 * acc + d) cs)"

definition sample_date :: "string \<Rightarrow> date option" where
  "sample_date s =
     (if s = ''2024-01-01'' then Some 1704067200000
      else if s = ''2024-06-01'' then Some 1717200000000
      else None)"

definition sample_lib :: lib where
  "sample_lib =
     \<lparr>isISO8601 = (\<lambda>s. sample_date s \<noteq> None),
      castDate = sample_date,
      castObjectId = (\<lambda>s. if length s = 24 then hex_value 0 s else None),
      newDate = sample_date,
      sortable = field_path True\<rparr>"

definition mk_task ::
  "oid \<Rightarrow> string \<Rightarrow> string \<Rightarrow> date option \<Rightarrow> oid \<Rightarrow> oid \<Rightarrow> task" where
  "mk_task i ttl stat due creator assignee =
     \<lparr>task_id = i, title = ttl, description = None, status = stat, priority = ''Low'',
      dueDate = due, image_path = None, createdBy = creator, assignedTo = Some assignee,
      createdAt = 1700000000000 + int i, updatedAt = 1700000000000 + int i\<rparr>"

definition ada :: user where
  "ada = \<lparr>u_id = 1, u_name = ''Ada'', u_email = ''ada@example.com''\<rparr>"

definition bob :: user where
  "bob = \<lparr>u_id = 2, u_name = ''Bob'', u_email = ''bob@example.com''\<rparr>"

definition ada_req :: req_user where
  "ada_req = \<lparr>user_id = 1, user_role = ''user''\<rparr>"

definition bob_req :: req_user where
  "bob_req = \<lparr>user_id = 2, user_role = ''user''\<rparr>"

definition admin_req :: req_user where
  "admin_req = \<lparr>user_id = 9, user_role = ''admin''\<rparr>"

text \<open>Tasks A (due 2024-01-01), B (no due date) and C (due 2024-06-01).\<close>

definition task_A :: task where
  "task_A = mk_task 1 ''A'' ''To Do'' (Some 1704067200000) 1 1"

definition task_B :: task where
  "task_B = mk_task 2 ''B'' ''To Do'' None 1 2"

definition task_C :: task where
  "task_C = mk_task 3 ''C'' ''To Do'' (Some 1717200000000) 2 2"

definition store_ABC :: store where
  "store_ABC = \<lparr>tasks = [task_A, task_B, task_C], users = [ada, bob]\<rparr>"

text \<open>Two tasks due on the same day and two tasks with no due date.\<close>

definition task_P :: task where
  "task_P = mk_task 1 ''P'' ''To Do'' (Some 1704067200000) 1 1"

definition task_Q :: task where
  "task_Q = mk_task 2 ''Q'' ''To Do'' (Some 1704067200000) 1 1"

definition task_R :: task where
  "task_R = mk_task 3 ''R'' ''To Do'' None 1 1"

definition task_S :: task where
  "task_S = mk_task 4 ''S'' ''To Do'' None 1 1"

definition store_PQRS :: store where
  "store_PQRS = \<lparr>tasks = [task_P, task_Q, task_R, task_S], users = [ada, bob]\<rparr>"

definition sort_query :: "string option \<Rightarrow> list_query" where
  "sort_query s =
     \<lparr>query_status = None, query_priority = None, query_dueDate = None, query_sort = s\<rparr>"

definition status_only :: "string \<Rightarrow> task_body" where
  "status_only s =
     \<lparr>body_title = None, body_description = None, body_status = Some s,
      body_priority = None, body_dueDate = None, body_assignedTo = None\<rparr>"

definition title_only :: "string \<Rightarrow> task_body" where
  "title_only s =
     \<lparr>body_title = Some s, body_description = None, body_status = None,
      body_priority = None, body_dueDate = None, body_assignedTo = None\<rparr>"

text \<open>An update with a new title, an empty description and a new due date.\<close>

definition body_retitle :: task_body where
  "body_retitle =
     \<lparr>body_title = Some ''A2'', body_description = Some [], body_status = None,
      body_priority = None, body_dueDate = Some ''2024-06-01'', body_assignedTo = None\<rparr>"

text \<open>An update that completes the task and assigns it to an id no user has.\<close>

definition body_reassign_7 :: task_body where
  "body_reassign_7 =
     (status_only ''Completed'')\<lparr>body_assignedTo := Some ''000000000000000000000007''\<rparr>"


text \<open>A creation request that assigns the task to an id no user has.\<close>

definition body_assign_7 :: task_body where
  "body_assign_7 = (title_only ''T'')\<lparr>body_assignedTo := Some ''000000000000000000000007''\<rparr>"

text \<open>A store for the leaderboard: three completed tasks are assigned to the id 7, which no user has.\<close>

definition store_board :: store where
  "store_board =
     \<lparr>tasks = [mk_task 1 ''L1'' ''Completed'' None 1 1,
               mk_task 2 ''L2'' ''Completed'' None 1 2,
               mk_task 3 ''L3'' ''Completed'' None 1 2,
               mk_task 4 ''L4'' ''To Do'' None 1 1,
               mk_task 5 ''L5'' ''Completed'' None 1 7,
               mk_task 6 ''L6'' ''Completed'' None 1 7,
               mk_task 7 ''L7'' ''Completed'' None 1 7],
      users = [ada, bob]\<rparr>"

definition board_rows :: "leaderboard_row list" where
  "board_rows =
     [\<lparr>row_id = 2, row_name = ''Bob'', row_email = ''bob@example.com'', completedTasks = 2\<rparr>,
      \<lparr>row_id = 1, row_name = ''Ada'', row_email = ''ada@example.com'', completedTasks = 1\<rparr>]"

section \<open>Properties of the store operations\<close>

lemma findById_SomeD: "findById ts i = Some t \<Longrightarrow> t \<in> set ts \<and> task_id t = i"
  by (auto simp: findById_def find_Some_iff)

lemma findById_filter_None: "findById (filter (\<lambda>x. task_id x \<noteq> i) ts) i = None"
  by (simp add: findById_def find_None_iff)

lemma deleteOne_filter:
  "distinct (map task_id ts) \<Longrightarrow> deleteOne ts i = filter (\<lambda>x. task_id x \<noteq> i) ts"
proof (induction ts)
  case Nil
  then show ?case by simp
next
  case (Cons x xs)
  show ?case
  proof (cases "task_id x = i")
    case True
    with Cons.prems have "\<forall>y\<in>set xs. task_id y \<noteq> i" by (auto simp: image_iff)
    then have "filter (\<lambda>y. task_id y \<noteq> i) xs = xs" by (simp add: filter_id_conv)
    with True show ?thesis by simp
  next
    case False
    with Cons show ?thesis by simp
  qed
qed

lemma findById_updateOne:
  "findById ts i = Some t \<Longrightarrow> task_id t' = i \<Longrightarrow> findById (updateOne ts t') i = Some t'"
  unfolding findById_def by (induction ts) (auto split: if_splits)

lemma mset_insort_by: "mset (insort_by le x xs) = add_mset x (mset xs)"
  by (induction xs) auto

lemma mset_sort_by: "mset (sort_by le xs) = mset xs"
  unfolding sort_by_def by (induction xs) (auto simp: mset_insort_by)

lemma set_sort_by: "set (sort_by le xs) = set xs"
  using mset_sort_by [of le xs] by (metis set_mset_mset)

lemma mset_partition2:
  "(\<And>v. Q v = (\<not> P v)) \<Longrightarrow> mset (filter P xs) + mset (filter Q xs) = mset xs"
  by (induction xs) auto

section \<open>Properties of the store's sort\<close>

lemma str_lt_irrefl: "\<not> str_lt s s"
  by (induction s) auto

lemma str_lt_trans: "str_lt a b \<Longrightarrow> str_lt b c \<Longrightarrow> str_lt a c"
proof (induction a b arbitrary: c rule: str_lt.induct)
  case 1
  then show ?case by simp
next
  case (2 y ys)
  then show ?case by (cases c) auto
next
  case (3 x xs)
  then show ?case by simp
next
  case (4 x xs y ys)
  then show ?case
    by (cases c) (auto split: if_splits)
qed

lemma of_char_less_cases:
  "(x::char) \<noteq> y \<Longrightarrow> (of_char x :: nat) < of_char y \<or> (of_char y :: nat) < of_char x"
  by (simp flip: nat_neq_iff)

lemma str_lt_total: "a \<noteq> b \<Longrightarrow> str_lt a b \<or> str_lt b a"
  by (induction a b rule: str_lt.induct) (auto dest: of_char_less_cases)

lemma bson_lt_irrefl: "\<not> bson_lt x x"
  by (cases x) (auto simp: str_lt_irrefl)

lemma bson_lt_trans: "bson_lt x y \<Longrightarrow> bson_lt y z \<Longrightarrow> bson_lt x z"
  by (cases x; cases y; cases z) (auto intro: str_lt_trans)

lemma bson_lt_total: "x \<noteq> y \<Longrightarrow> bson_lt x y \<or> bson_lt y x"
  by (cases x; cases y) (auto dest: str_lt_total)

lemma doc_le_total: "doc_le ks a b \<or> doc_le ks b a"
proof (induction ks)
  case Nil
  then show ?case by simp
next
  case (Cons k ks)
  obtain f d where k: "k = (f, d)" by (cases k)
  show ?case
  proof (cases "field_value f a = field_value f b")
    case True
    with Cons k show ?thesis by simp
  next
    case False
    from bson_lt_total [OF False] k False show ?thesis by auto
  qed
qed

lemma doc_le_trans: "doc_le ks a b \<Longrightarrow> doc_le ks b c \<Longrightarrow> doc_le ks a c"
proof (induction ks)
  case Nil
  then show ?case by simp
next
  case (Cons k ks)
  obtain f d where k: "k = (f, d)" by (cases k)
  let ?x = "field_value f a" and ?y = "field_value f b" and ?z = "field_value f c"
  show ?case
  proof (cases "?x = ?y")
    case xy: True
    show ?thesis
    proof (cases "?y = ?z")
      case True
      with xy Cons k show ?thesis by simp
    next
      case False
      with xy Cons.prems k show ?thesis by simp
    qed
  next
    case xy: False
    show ?thesis
    proof (cases "?y = ?z")
      case True
      from xy True have xz: "?x \<noteq> ?z" by simp
      from Cons.prems(1) xy k have "if d < 0 then bson_lt ?y ?x else bson_lt ?x ?y" by simp
      then have "if d < 0 then bson_lt ?z ?x else bson_lt ?x ?z" by (simp only: True)
      with xz k show ?thesis by simp
    next
      case yz: False
      show ?thesis
      proof (cases "d < 0")
        case True
        with xy yz Cons.prems k have 1: "bson_lt ?y ?x" and 2: "bson_lt ?z ?y" by simp_all
        from bson_lt_trans [OF 2 1] have 3: "bson_lt ?z ?x" .
        then have "?x \<noteq> ?z" using bson_lt_irrefl by metis
        with 3 True k show ?thesis by simp
      next
        case False
        with xy yz Cons.prems k have 1: "bson_lt ?x ?y" and 2: "bson_lt ?y ?z" by simp_all
        from bson_lt_trans [OF 1 2] have 3: "bson_lt ?x ?z" .
        then have "?x \<noteq> ?z" using bson_lt_irrefl by metis
        with 3 False k show ?thesis by simp
      qed
    qed
  qed
qed

lemma set_insort_by: "set (insort_by le x xs) = insert x (set xs)"
  by (induction xs) auto

lemma sorted_insort_by:
  assumes tot: "\<And>a b. le a b \<or> le b a" and tr: "\<And>a b c. le a b \<Longrightarrow> le b c \<Longrightarrow> le a c"
  shows "sorted_wrt le xs \<Longrightarrow> sorted_wrt le (insort_by le x xs)"
proof (induction xs)
  case Nil
  then show ?case by simp
next
  case (Cons y ys)
  show ?case
  proof (cases "le x y")
    case True
    with Cons.prems tr show ?thesis by auto
  next
    case False
    with tot have "le y x" by blast
    with Cons False show ?thesis by (auto simp: set_insort_by)
  qed
qed

lemma sorted_sort_by:
  assumes "\<And>a b. le a b \<or> le b a" and "\<And>a b c. le a b \<Longrightarrow> le b c \<Longrightarrow> le a c"
  shows "sorted_wrt le (sort_by le xs)"
  unfolding sort_by_def
  by (induction xs) (auto intro: sorted_insort_by [OF assms])

lemma sorted_store_sort: "sorted_wrt (doc_le ks) (sort_by (doc_le ks) xs)"
  by (rule sorted_sort_by) (rule doc_le_total, rule doc_le_trans)

section \<open>Who may update and delete\<close>

text \<open>
  C3. For a task that exists, the update and the delete are refused with an
  AuthorizationError exactly when the requester is neither the task's creator nor an
  admin, and a refused request leaves the store as it was.
\<close>

theorem mutation_authorization:
  assumes "castObjectId L pid = Some i" and "findById (tasks st) i = Some t"
  shows "((fst (updateTask L now u pid b st) = Inl AuthorizationError)
            = (\<not> (user_id u = createdBy t \<or> user_role u = ''admin'')))
       \<and> ((fst (deleteTask L u pid st) = Inl AuthorizationError)
            = (\<not> (user_id u = createdBy t \<or> user_role u = ''admin'')))
       \<and> (\<not> (user_id u = createdBy t \<or> user_role u = ''admin'') \<longrightarrow>
            updateTask L now u pid b st = (Inl AuthorizationError, st)
          \<and> deleteTask L u pid st = (Inl AuthorizationError, st))"
  using assms
  by (auto simp: updateTask_def deleteTask_def not_authorized_def split: option.splits)

theorem mutation_authorization_witness:
  "castObjectId sample_lib ''000000000000000000000001'' = Some 1
   \<and> findById (tasks store_ABC) 1 = Some task_A
   \<and> user_id bob_req \<noteq> createdBy task_A \<and> user_role bob_req \<noteq> ''admin''
   \<and> updateTask sample_lib 1750000000000 bob_req ''000000000000000000000001''
        (status_only ''In Progress'') store_ABC = (Inl AuthorizationError, store_ABC)
   \<and> deleteTask sample_lib bob_req ''000000000000000000000001'' store_ABC
        = (Inl AuthorizationError, store_ABC)"
proof -
  have h1: "castObjectId sample_lib ''000000000000000000000001'' = Some 1"
    by (simp add: sample_lib_def hex_digit_def)
  have h2: "findById (tasks store_ABC) 1 = Some task_A"
    by (simp add: findById_def store_ABC_def task_A_def mk_task_def)
  have h3: "user_id bob_req \<noteq> createdBy task_A \<and> user_role bob_req \<noteq> ''admin''"
    by (simp add: bob_req_def task_A_def mk_task_def)
  from mutation_authorization [OF h1 h2, where u = bob_req and now = 1750000000000
      and b = "status_only ''In Progress''"] h1 h2 h3
  show ?thesis by simp
qed

section \<open>Deleting\<close>

text \<open>
  C8. When the requester created the task, the delete answers with its
  acknowledgement and removes exactly the documents with that id: every other task
  stays, in its place, and the users are untouched. Looking the id up afterwards finds
  nothing, and a second delete is answered with NotFoundError. Ids are unique in the
  store.
\<close>

theorem delete_by_owner:
  assumes "distinct (map task_id (tasks st))"
    and "castObjectId L pid = Some i" and "findById (tasks st) i = Some t"
    and "createdBy t = user_id u"
  shows "deleteTask L u pid st
           = (Inr ''Task deleted'', st\<lparr>tasks := filter (\<lambda>x. task_id x \<noteq> i) (tasks st)\<rparr>)
       \<and> findById (tasks (snd (deleteTask L u pid st))) i = None
       \<and> fst (deleteTask L u pid (snd (deleteTask L u pid st))) = Inl NotFoundError
       \<and> users (snd (deleteTask L u pid st)) = users st"
proof -
  from assms(3) have tid: "task_id t = i" by (simp add: findById_SomeD)
  have del: "deleteTask L u pid st
           = (Inr ''Task deleted'', st\<lparr>tasks := filter (\<lambda>x. task_id x \<noteq> i) (tasks st)\<rparr>)"
    using assms tid by (simp add: deleteTask_def not_authorized_def deleteOne_filter)
  have "fst (deleteTask L u pid (st\<lparr>tasks := filter (\<lambda>x. task_id x \<noteq> i) (tasks st)\<rparr>))
          = Inl NotFoundError"
    using assms(2) by (simp add: deleteTask_def findById_filter_None)
  with del show ?thesis by (simp add: findById_filter_None)
qed

theorem delete_by_owner_witness:
  "distinct (map task_id (tasks store_ABC))
   \<and> castObjectId sample_lib ''000000000000000000000001'' = Some 1
   \<and> findById (tasks store_ABC) 1 = Some task_A
   \<and> createdBy task_A = user_id ada_req
   \<and> deleteTask sample_lib ada_req ''000000000000000000000001'' store_ABC
        = (Inr ''Task deleted'', \<lparr>tasks = [task_B, task_C], users = [ada, bob]\<rparr>)"
proof -
  have h0: "distinct (map task_id (tasks store_ABC))"
    by (simp add: store_ABC_def task_A_def task_B_def task_C_def mk_task_def)
  have h1: "castObjectId sample_lib ''000000000000000000000001'' = Some 1"
    by (simp add: sample_lib_def hex_digit_def)
  have h2: "findById (tasks store_ABC) 1 = Some task_A"
    by (simp add: findById_def store_ABC_def task_A_def mk_task_def)
  have h3: "createdBy task_A = user_id ada_req"
    by (simp add: task_A_def mk_task_def ada_req_def)
  have "st\<lparr>tasks := filter (\<lambda>x. task_id x \<noteq> 1) (tasks st)\<rparr>
          = \<lparr>tasks = [task_B, task_C], users = [ada, bob]\<rparr>" if "st = store_ABC" for st
    using that by (simp add: store_ABC_def task_A_def task_B_def task_C_def mk_task_def)
  with delete_by_owner [OF h0 h1 h2 h3] h0 h1 h2 h3 show ?thesis by simp
qed

section \<open>Updating\<close>

lemma assign_fields_SomeD:
  assumes "assign_fields L b t = Some t'"
  shows "\<exists>d a.
           (case truthy (body_dueDate b) of
              Some s \<Rightarrow> map_option Some (castDate L s)
            | None \<Rightarrow> Some (dueDate t)) = Some d
         \<and> (case truthy (body_assignedTo b) of
              Some s \<Rightarrow> map_option Some (castObjectId L s)
            | None \<Rightarrow> Some (assignedTo t)) = Some a
         \<and> t' = t\<lparr>title := (case truthy (body_title b) of Some s \<Rightarrow> s | None \<Rightarrow> title t),
                  description :=
                    (case truthy (body_description b) of Some s \<Rightarrow> Some s | None \<Rightarrow> description t),
                  status := (case truthy (body_status b) of Some s \<Rightarrow> s | None \<Rightarrow> status t),
                  priority :=
                    (case truthy (body_priority b) of Some s \<Rightarrow> s | None \<Rightarrow> priority t),
                  dueDate := d, assignedTo := a\<rparr>"
proof -
  let ?D = "case truthy (body_dueDate b) of
              Some s \<Rightarrow> map_option Some (castDate L s)
            | None \<Rightarrow> Some (dueDate t)"
  let ?A = "case truthy (body_assignedTo b) of
              Some s \<Rightarrow> map_option Some (castObjectId L s)
            | None \<Rightarrow> Some (assignedTo t)"
  from assms obtain d where d: "?D = Some d"
    by (cases ?D) (simp_all add: assign_fields_def Let_def)
  from assms d obtain a where a: "?A = Some a"
    by (cases ?A) (simp_all add: assign_fields_def Let_def)
  from assms d a show ?thesis by (simp add: assign_fields_def Let_def)
qed

lemma cast_case:
  "(case v of Some s \<Rightarrow> map_option Some (c s) | None \<Rightarrow> Some old) = Some d \<Longrightarrow> x = d \<Longrightarrow>
     (case v of Some s \<Rightarrow> c s \<noteq> None \<and> x = c s | None \<Rightarrow> x = old)"
  by (cases v) auto

lemma assign_fields_Some:
  assumes "assign_fields L b t = Some t'"
  shows "title t' = (case truthy (body_title b) of Some s \<Rightarrow> s | None \<Rightarrow> title t)
       \<and> description t'
           = (case truthy (body_description b) of Some s \<Rightarrow> Some s | None \<Rightarrow> description t)
       \<and> status t' = (case truthy (body_status b) of Some s \<Rightarrow> s | None \<Rightarrow> status t)
       \<and> priority t' = (case truthy (body_priority b) of Some s \<Rightarrow> s | None \<Rightarrow> priority t)
       \<and> (case truthy (body_dueDate b) of
             Some s \<Rightarrow> castDate L s \<noteq> None \<and> dueDate t' = castDate L s
           | None \<Rightarrow> dueDate t' = dueDate t)
       \<and> (case truthy (body_assignedTo b) of
             Some s \<Rightarrow> castObjectId L s \<noteq> None \<and> assignedTo t' = castObjectId L s
           | None \<Rightarrow> assignedTo t' = assignedTo t)
       \<and> createdBy t' = createdBy t \<and> image_path t' = image_path t \<and> task_id t' = task_id t"
proof -
  from assign_fields_SomeD [OF assms] obtain d a where
    d: "(case truthy (body_dueDate b) of
              Some s \<Rightarrow> map_option Some (castDate L s)
            | None \<Rightarrow> Some (dueDate t)) = Some d"
    and a: "(case truthy (body_assignedTo b) of
              Some s \<Rightarrow> map_option Some (castObjectId L s)
            | None \<Rightarrow> Some (assignedTo t)) = Some a"
    and t': "t' = t\<lparr>title := (case truthy (body_title b) of Some s \<Rightarrow> s | None \<Rightarrow> title t),
                  description :=
                    (case truthy (body_description b) of Some s \<Rightarrow> Some s | None \<Rightarrow> description t),
                  status := (case truthy (body_status b) of Some s \<Rightarrow> s | None \<Rightarrow> status t),
                  priority :=
                    (case truthy (body_priority b) of Some s \<Rightarrow> s | None \<Rightarrow> priority t),
                  dueDate := d, assignedTo := a\<rparr>"
    by blast
  have dd: "dueDate t' = d" and aa: "assignedTo t' = a" using t' by simp_all
  have 1: "case truthy (body_dueDate b) of
             Some s \<Rightarrow> castDate L s \<noteq> None \<and> dueDate t' = castDate L s
           | None \<Rightarrow> dueDate t' = dueDate t" by (rule cast_case [OF d dd])
  have 2: "case truthy (body_assignedTo b) of
             Some s \<Rightarrow> castObjectId L s \<noteq> None \<and> assignedTo t' = castObjectId L s
           | None \<Rightarrow> assignedTo t' = assignedTo t" by (rule cast_case [OF a aa])
  have 3: "title t' = (case truthy (body_title b) of Some s \<Rightarrow> s | None \<Rightarrow> title t)"
    using t' by simp
  have 4: "description t'
           = (case truthy (body_description b) of Some s \<Rightarrow> Some s | None \<Rightarrow> description t)"
    using t' by simp
  have 5: "status t' = (case truthy (body_status b) of Some s \<Rightarrow> s | None \<Rightarrow> status t)"
    using t' by simp
  have 6: "priority t' = (case truthy (body_priority b) of Some s \<Rightarrow> s | None \<Rightarrow> priority t)"
    using t' by simp
  have 7: "createdBy t' = createdBy t \<and> image_path t' = image_path t \<and> task_id t' = task_id t"
    using t' by simp
  from 1 2 3 4 5 6 7 show ?thesis by blast
qed

lemma updateTask_Inr:
  assumes "updateTask L now u pid b st = (Inr t', st')"
  shows "\<exists>i t t0. castObjectId L pid = Some i \<and> findById (tasks st) i = Some t
            \<and> \<not> not_authorized u t \<and> assign_fields L b t = Some t0 \<and> validate_task t0
            \<and> t' = touch now t t0
            \<and> st' = st\<lparr>tasks := updateOne (tasks st) t'\<rparr>"
  using assms by (auto simp: updateTask_def split: option.splits if_splits)

lemma updateTask_Inl:
  "updateTask L now u pid b st = (Inl e, st') \<Longrightarrow> st' = st"
  by (auto simp: updateTask_def split: option.splits if_splits)

lemma touch_fields:
  "title (touch now t t0) = title t0 \<and> description (touch now t t0) = description t0
   \<and> status (touch now t t0) = status t0 \<and> priority (touch now t t0) = priority t0
   \<and> dueDate (touch now t t0) = dueDate t0 \<and> assignedTo (touch now t t0) = assignedTo t0
   \<and> createdBy (touch now t t0) = createdBy t0 \<and> image_path (touch now t t0) = image_path t0
   \<and> task_id (touch now t t0) = task_id t0 \<and> createdAt (touch now t t0) = createdAt t0"
  by (simp add: touch_def)

lemma touch_updatedAt:
  assumes "createdBy t0 = createdBy t" and "image_path t0 = image_path t"
    and "task_id t0 = task_id t" and "createdAt t0 = createdAt t"
    and "updatedAt t0 = updatedAt t" and "task.more t0 = task.more t"
  shows "updatedAt (touch now t t0)
           = (if title t0 = title t \<and> description t0 = description t \<and> status t0 = status t
                 \<and> priority t0 = priority t \<and> dueDate t0 = dueDate t
                 \<and> assignedTo t0 = assignedTo t
              then updatedAt t else now)"
proof (cases "t0 = t")
  case True
  then show ?thesis by (simp add: touch_def)
next
  case False
  have nc: "\<not> (title t0 = title t \<and> description t0 = description t \<and> status t0 = status t
            \<and> priority t0 = priority t \<and> dueDate t0 = dueDate t
            \<and> assignedTo t0 = assignedTo t)"
  proof
    assume "title t0 = title t \<and> description t0 = description t \<and> status t0 = status t
            \<and> priority t0 = priority t \<and> dueDate t0 = dueDate t
            \<and> assignedTo t0 = assignedTo t"
    with assms have "t0 = t" by (intro task.equality) simp_all
    with False show False by simp
  qed
  have B: "(if title t0 = title t \<and> description t0 = description t \<and> status t0 = status t
                 \<and> priority t0 = priority t \<and> dueDate t0 = dueDate t
                 \<and> assignedTo t0 = assignedTo t
              then updatedAt t else now) = now"
    using nc by (rule if_not_P)
  from False have A: "updatedAt (touch now t t0) = now" by (simp add: touch_def)
  show ?thesis by (simp only: A B)
qed

lemma assign_fields_frame:
  assumes "assign_fields L b t = Some t0"
  shows "createdAt t0 = createdAt t \<and> updatedAt t0 = updatedAt t \<and> task.more t0 = task.more t"
proof -
  from assign_fields_SomeD [OF assms] obtain d a where
    "t0 = t\<lparr>title := (case truthy (body_title b) of Some s \<Rightarrow> s | None \<Rightarrow> title t),
                  description :=
                    (case truthy (body_description b) of Some s \<Rightarrow> Some s | None \<Rightarrow> description t),
                  status := (case truthy (body_status b) of Some s \<Rightarrow> s | None \<Rightarrow> status t),
                  priority :=
                    (case truthy (body_priority b) of Some s \<Rightarrow> s | None \<Rightarrow> priority t),
                  dueDate := d, assignedTo := a\<rparr>"
    by blast
  then show ?thesis by simp
qed

text \<open>
  C4, as the claim states it, fails: the payload \<open>{status: "In Progress"}\<close> on task A
  changes the status and also \<open>updatedAt\<close>, which was 1700000000001 and becomes the
  time of the request, 1750000000000.
\<close>

theorem updateTask_status_only_counterexample:
  "fst (updateTask sample_lib 1750000000000 ada_req ''000000000000000000000001''
          (status_only ''In Progress'') store_ABC)
     = Inr (task_A\<lparr>status := ''In Progress'', updatedAt := 1750000000000\<rparr>)
   \<and> updatedAt task_A = 1700000000001
   \<and> fst (updateTask sample_lib 1750000000000 ada_req ''000000000000000000000001''
            (status_only ''In Progress'') store_ABC)
       \<noteq> Inr (task_A\<lparr>status := ''In Progress''\<rparr>)"
proof -
  have 1: "fst (updateTask sample_lib 1750000000000 ada_req ''000000000000000000000001''
          (status_only ''In Progress'') store_ABC)
     = Inr (task_A\<lparr>status := ''In Progress'', updatedAt := 1750000000000\<rparr>)"
    by code_simp
  have 2: "updatedAt task_A = 1700000000001"
    by (simp add: task_A_def mk_task_def)
  have "updatedAt (task_A\<lparr>status := ''In Progress'', updatedAt := 1750000000000\<rparr>)
          \<noteq> updatedAt (task_A\<lparr>status := ''In Progress''\<rparr>)"
    using 2 by simp
  then have "task_A\<lparr>status := ''In Progress'', updatedAt := 1750000000000\<rparr>
               \<noteq> task_A\<lparr>status := ''In Progress''\<rparr>"
    by (auto dest: arg_cong [where f = updatedAt])
  with 1 2 show ?thesis by simp
qed

text \<open>
  C4, amended. For a task that exists, an update that is saved sets each of title,
  description, status, priority, dueDate and assignedTo to the request's value when
  that is present and not empty, and leaves it as it was otherwise; createdBy, image,
  the id and createdAt are always as they were; updatedAt becomes the time of the
  request when one of the six fields has changed and is as it was otherwise. The saved
  document is the one a later lookup finds, and an update that is not saved changes
  nothing. From the creator or an admin, on a stored task that is valid, the payload
  \<open>{status: "In Progress"}\<close> alone is saved and changes the status and updatedAt only.
\<close>

theorem updateTask_fields:
  assumes "castObjectId L pid = Some i" and "findById (tasks st) i = Some t"
  shows "(\<forall>t' st'. updateTask L now u pid b st = (Inr t', st') \<longrightarrow>
            title t' = (case truthy (body_title b) of Some s \<Rightarrow> s | None \<Rightarrow> title t)
          \<and> description t'
              = (case truthy (body_description b) of Some s \<Rightarrow> Some s | None \<Rightarrow> description t)
          \<and> status t' = (case truthy (body_status b) of Some s \<Rightarrow> s | None \<Rightarrow> status t)
          \<and> priority t' = (case truthy (body_priority b) of Some s \<Rightarrow> s | None \<Rightarrow> priority t)
          \<and> (case truthy (body_dueDate b) of
                Some s \<Rightarrow> castDate L s \<noteq> None \<and> dueDate t' = castDate L s
              | None \<Rightarrow> dueDate t' = dueDate t)
          \<and> (case truthy (body_assignedTo b) of
                Some s \<Rightarrow> castObjectId L s \<noteq> None \<and> assignedTo t' = castObjectId L s
              | None \<Rightarrow> assignedTo t' = assignedTo t)
          \<and> createdBy t' = createdBy t \<and> image_path t' = image_path t
          \<and> task_id t' = task_id t \<and> createdAt t' = createdAt t
          \<and> updatedAt t'
              = (if title t' = title t \<and> description t' = description t
                    \<and> status t' = status t \<and> priority t' = priority t
                    \<and> dueDate t' = dueDate t \<and> assignedTo t' = assignedTo t
                 then updatedAt t else now)
          \<and> st' = st\<lparr>tasks := updateOne (tasks st) t'\<rparr>
          \<and> findById (tasks st') i = Some t')
       \<and> (\<forall>e st'. updateTask L now u pid b st = (Inl e, st') \<longrightarrow> st' = st)
       \<and> (\<not> not_authorized u t \<and> validate_task t \<and> status t \<noteq> ''In Progress'' \<longrightarrow>
            updateTask L now u pid (status_only ''In Progress'') st
              = (Inr (t\<lparr>status := ''In Progress'', updatedAt := now\<rparr>),
                 st\<lparr>tasks := updateOne (tasks st)
                              (t\<lparr>status := ''In Progress'', updatedAt := now\<rparr>)\<rparr>))
       \<and> (\<not> not_authorized u t \<and> validate_task t \<and> status t = ''In Progress'' \<longrightarrow>
            updateTask L now u pid (status_only ''In Progress'') st
              = (Inr t, st\<lparr>tasks := updateOne (tasks st) t\<rparr>))"
proof (intro conjI allI impI)
  fix e st' assume "updateTask L now u pid b st = (Inl e, st')"
  then show "st' = st" by (rule updateTask_Inl)
next
  assume a: "\<not> not_authorized u t \<and> validate_task t \<and> status t \<noteq> ''In Progress''"
  then have "validate_task (t\<lparr>status := ''In Progress''\<rparr>)"
    by (simp add: validate_task_def status_enum_def)
  moreover have "assign_fields L (status_only ''In Progress'') t
                   = Some (t\<lparr>status := ''In Progress''\<rparr>)"
    by (simp add: assign_fields_def status_only_def truthy_def)
  moreover from a have "t\<lparr>status := ''In Progress''\<rparr> \<noteq> t"
    by (auto dest: arg_cong [where f = status])
  then have "touch now t (t\<lparr>status := ''In Progress''\<rparr>)
               = t\<lparr>status := ''In Progress'', updatedAt := now\<rparr>"
    by (simp add: touch_def)
  ultimately show "updateTask L now u pid (status_only ''In Progress'') st
              = (Inr (t\<lparr>status := ''In Progress'', updatedAt := now\<rparr>),
                 st\<lparr>tasks := updateOne (tasks st)
                              (t\<lparr>status := ''In Progress'', updatedAt := now\<rparr>)\<rparr>)"
    using assms a by (simp add: updateTask_def)
next
  assume a: "\<not> not_authorized u t \<and> validate_task t \<and> status t = ''In Progress''"
  have "t\<lparr>status := status t\<rparr> = t" by simp
  with a have same: "t\<lparr>status := ''In Progress''\<rparr> = t" by simp
  have "assign_fields L (status_only ''In Progress'') t
                   = Some (t\<lparr>status := ''In Progress''\<rparr>)"
    by (simp add: assign_fields_def status_only_def truthy_def)
  with same have "assign_fields L (status_only ''In Progress'') t = Some t" by simp
  moreover have "touch now t t = t" by (simp add: touch_def)
  ultimately show "updateTask L now u pid (status_only ''In Progress'') st
              = (Inr t, st\<lparr>tasks := updateOne (tasks st) t\<rparr>)"
    using assms a by (simp add: updateTask_def)
next
  fix t' st' assume ok: "updateTask L now u pid b st = (Inr t', st')"
  from updateTask_Inr [OF ok] assms obtain t0 where af: "assign_fields L b t = Some t0"
    and t': "t' = touch now t t0"
    and st': "st' = st\<lparr>tasks := updateOne (tasks st) t'\<rparr>" by auto
  note f0 = assign_fields_Some [OF af]
  note tf = touch_fields [of now t t0]
  have e1: "title t' = title t0" and e2: "description t' = description t0"
    and e3: "status t' = status t0" and e4: "priority t' = priority t0"
    and e5: "dueDate t' = dueDate t0" and e6: "assignedTo t' = assignedTo t0"
    and e7: "createdBy t' = createdBy t0" and e8: "image_path t' = image_path t0"
    and e9: "task_id t' = task_id t0" and e10: "createdAt t' = createdAt t0"
    using tf t' by simp_all
  from assms(2) have "task_id t = i" by (simp add: findById_SomeD)
  with f0 e9 have tid: "task_id t' = i" by simp
  show "title t' = (case truthy (body_title b) of Some s \<Rightarrow> s | None \<Rightarrow> title t)"
    using f0 e1 by simp
  show "description t'
      = (case truthy (body_description b) of Some s \<Rightarrow> Some s | None \<Rightarrow> description t)"
    using f0 e2 by simp
  show "status t' = (case truthy (body_status b) of Some s \<Rightarrow> s | None \<Rightarrow> status t)"
    using f0 e3 by simp
  show "priority t' = (case truthy (body_priority b) of Some s \<Rightarrow> s | None \<Rightarrow> priority t)"
    using f0 e4 by simp
  show "case truthy (body_dueDate b) of
          Some s \<Rightarrow> castDate L s \<noteq> None \<and> dueDate t' = castDate L s
        | None \<Rightarrow> dueDate t' = dueDate t"
    using f0 unfolding e5 by simp
  show "case truthy (body_assignedTo b) of
          Some s \<Rightarrow> castObjectId L s \<noteq> None \<and> assignedTo t' = castObjectId L s
        | None \<Rightarrow> assignedTo t' = assignedTo t"
    using f0 unfolding e6 by simp
  show "createdBy t' = createdBy t" using f0 e7 by simp
  show "image_path t' = image_path t" using f0 e8 by simp
  show "task_id t' = task_id t" using f0 e9 by simp
  show "createdAt t' = createdAt t" using assign_fields_frame [OF af] e10 by simp
  show "updatedAt t'
          = (if title t' = title t \<and> description t' = description t
                \<and> status t' = status t \<and> priority t' = priority t
                \<and> dueDate t' = dueDate t \<and> assignedTo t' = assignedTo t
             then updatedAt t else now)"
    unfolding e1 e2 e3 e4 e5 e6 unfolding t'
    using f0 assign_fields_frame [OF af] by (intro touch_updatedAt) simp_all
  show "st' = st\<lparr>tasks := updateOne (tasks st) t'\<rparr>" by (rule st')
  show "findById (tasks st') i = Some t'"
    using st' findById_updateOne [OF assms(2) tid] by simp
qed

theorem updateTask_fields_witness:
  "castObjectId sample_lib ''000000000000000000000001'' = Some 1
   \<and> findById (tasks store_ABC) 1 = Some task_A
   \<and> \<not> not_authorized ada_req task_A
   \<and> validate_task task_A
   \<and> status task_A \<noteq> ''In Progress''
   \<and> updateTask sample_lib 1750000000000 ada_req ''000000000000000000000001''
        (status_only ''In Progress'') store_ABC
        = (Inr (task_A\<lparr>status := ''In Progress'', updatedAt := 1750000000000\<rparr>),
           \<lparr>tasks = [task_A\<lparr>status := ''In Progress'', updatedAt := 1750000000000\<rparr>,
                     task_B, task_C],
            users = [ada, bob]\<rparr>)
   \<and> fst (updateTask sample_lib 1750000000000 ada_req ''000000000000000000000001''
            body_retitle store_ABC)
        = Inr (task_A\<lparr>title := ''A2'', dueDate := Some 1717200000000,
                       updatedAt := 1750000000000\<rparr>)"
proof -
  have h1: "castObjectId sample_lib ''000000000000000000000001'' = Some 1"
    by (simp add: sample_lib_def hex_digit_def)
  have h2: "findById (tasks store_ABC) 1 = Some task_A"
    by (simp add: findById_def store_ABC_def task_A_def mk_task_def)
  have h3: "\<not> not_authorized ada_req task_A"
    by (simp add: not_authorized_def ada_req_def task_A_def mk_task_def)
  have h4: "validate_task task_A"
    by (simp add: validate_task_def task_A_def mk_task_def status_enum_def priority_enum_def)
  have h5: "status task_A \<noteq> ''In Progress''"
    by (simp add: task_A_def mk_task_def)
  have u: "store_ABC\<lparr>tasks := updateOne (tasks store_ABC)
                (task_A\<lparr>status := ''In Progress'', updatedAt := 1750000000000\<rparr>)\<rparr>
             = \<lparr>tasks = [task_A\<lparr>status := ''In Progress'', updatedAt := 1750000000000\<rparr>,
                          task_B, task_C],
                users = [ada, bob]\<rparr>"
    by (simp add: store_ABC_def task_A_def mk_task_def)
  have r: "fst (updateTask sample_lib 1750000000000 ada_req ''000000000000000000000001''
             body_retitle store_ABC)
             = Inr (task_A\<lparr>title := ''A2'', dueDate := Some 1717200000000,
                            updatedAt := 1750000000000\<rparr>)"
    by code_simp
  from updateTask_fields [OF h1 h2, where u = ada_req and now = 1750000000000] h3 h4 h5
  have "updateTask sample_lib 1750000000000 ada_req ''000000000000000000000001''
          (status_only ''In Progress'') store_ABC
        = (Inr (task_A\<lparr>status := ''In Progress'', updatedAt := 1750000000000\<rparr>),
           store_ABC\<lparr>tasks := updateOne (tasks store_ABC)
                (task_A\<lparr>status := ''In Progress'', updatedAt := 1750000000000\<rparr>)\<rparr>)"
    by blast
  with u h1 h2 h3 h4 h5 r show ?thesis by simp
qed

section \<open>Creating\<close>





text \<open>
  The older route of \<open>routes/taskRoutes.js\<close> has no such check: there the same
  request is saved.
\<close>

lemma createTask_simple_saves_unknown_assignee:
  "createTask_simple sample_lib 1700000000010 ada_req body_assign_7 None 10 store_ABC
     = (Inr ((mk_task 10 ''T'' ''To Do'' None 1 7)),
        store_ABC\<lparr>tasks := tasks store_ABC @ [mk_task 10 ''T'' ''To Do'' None 1 7]\<rparr>)"
  by code_simp

lemma save_new_Inr:
  "save_new doc st = (Inr t, st') \<Longrightarrow> doc = Some t \<and> st' = st\<lparr>tasks := tasks st @ [t]\<rparr>"
  by (auto simp: save_new_def split: option.splits if_splits)

lemma createTask_Inr:
  "createTask L now u b file newId st = (Inr t, st') \<Longrightarrow>
     (\<exists>img. new_Task L now newId u b img = Some t) \<and> st' = st\<lparr>tasks := tasks st @ [t]\<rparr>"
  by (auto simp: createTask_def Let_def dest!: save_new_Inr split: option.splits if_splits)

lemma new_Task_Some:
  "new_Task L now newId u b img = Some t \<Longrightarrow>
     createdBy t = user_id u \<and> task_id t = newId
   \<and> (body_assignedTo b = None \<longrightarrow> assignedTo t = Some (user_id u))
   \<and> (body_status b = None \<longrightarrow> status t = ''To Do'')
   \<and> (body_priority b = None \<longrightarrow> priority t = ''Low'')"
  by (auto simp: new_Task_def truthy_def split: option.splits if_splits)

text \<open>
  C7. A task that is created has the requester as \<open>createdBy\<close>; when the request has
  no \<open>assignedTo\<close> the task is assigned to its creator, when it has no \<open>status\<close> the
  status is "To Do", and when it has no \<open>priority\<close> the priority is "Low". The task
  is appended to the store. A request with nothing but a non-empty title and an unused
  id is created.
\<close>

theorem createTask_defaults:
  "(createTask L now u b file newId st = (Inr t, st') \<longrightarrow>
       createdBy t = user_id u
     \<and> (body_assignedTo b = None \<longrightarrow> assignedTo t = Some (createdBy t))
     \<and> (body_status b = None \<longrightarrow> status t = ''To Do'')
     \<and> (body_priority b = None \<longrightarrow> priority t = ''Low'')
     \<and> tasks st' = tasks st @ [t] \<and> users st' = users st)
   \<and> (s \<noteq> [] \<and> newId \<notin> task_id ` set (tasks st) \<longrightarrow>
        (\<exists>t1. fst (createTask L now u (title_only s) file newId st) = Inr t1
           \<and> assignedTo t1 = Some (user_id u) \<and> createdBy t1 = user_id u
           \<and> status t1 = ''To Do'' \<and> priority t1 = ''Low''))"
proof (intro conjI impI)
  assume ok: "createTask L now u b file newId st = (Inr t, st')"
  note c = createTask_Inr [OF ok]
  then obtain img where n: "new_Task L now newId u b img = Some t"
    by blast
  note f = new_Task_Some [OF n]
  show "createdBy t = user_id u" using f by simp
  show "assignedTo t = Some (createdBy t)" if "body_assignedTo b = None" using f that by simp
  show "status t = ''To Do''" if "body_status b = None" using f that by simp
  show "priority t = ''Low''" if "body_priority b = None" using f that by simp
  show "tasks st' = tasks st @ [t]" using c by simp
  show "users st' = users st" using c by simp
next
  assume "s \<noteq> [] \<and> newId \<notin> task_id ` set (tasks st)"
  then show "\<exists>t1. fst (createTask L now u (title_only s) file newId st) = Inr t1
           \<and> assignedTo t1 = Some (user_id u) \<and> createdBy t1 = user_id u
           \<and> status t1 = ''To Do'' \<and> priority t1 = ''Low''"
    by (simp add: createTask_def Let_def title_only_def validation_errors_def truthy_def
        new_Task_def save_new_def validate_task_def status_enum_def priority_enum_def)
qed

theorem createTask_defaults_witness:
  "createTask sample_lib 1700000000010 ada_req (title_only ''T'') None 10 store_ABC
     = (Inr (mk_task 10 ''T'' ''To Do'' None 1 1),
        store_ABC\<lparr>tasks := tasks store_ABC @ [mk_task 10 ''T'' ''To Do'' None 1 1]\<rparr>)
   \<and> createdBy (mk_task 10 ''T'' ''To Do'' None 1 1) = user_id ada_req
   \<and> assignedTo (mk_task 10 ''T'' ''To Do'' None 1 1) = Some (user_id ada_req)
   \<and> status (mk_task 10 ''T'' ''To Do'' None 1 1) = ''To Do''
   \<and> priority (mk_task 10 ''T'' ''To Do'' None 1 1) = ''Low''"
proof -
  have e: "createTask sample_lib 1700000000010 ada_req (title_only ''T'') None 10 store_ABC
     = (Inr (mk_task 10 ''T'' ''To Do'' None 1 1),
        store_ABC\<lparr>tasks := tasks store_ABC @ [mk_task 10 ''T'' ''To Do'' None 1 1]\<rparr>)"
    by code_simp
  have b: "body_assignedTo (title_only ''T'') = None \<and> body_status (title_only ''T'') = None
           \<and> body_priority (title_only ''T'') = None"
    by (simp add: title_only_def)
  from createTask_defaults [where L = sample_lib and now = 1700000000010 and u = ada_req
      and b = "title_only ''T''" and ?file = None and newId = 10 and st = store_ABC
      and t = "mk_task 10 ''T'' ''To Do'' None 1 1"
      and st' = "store_ABC\<lparr>tasks := tasks store_ABC @ [mk_task 10 ''T'' ''To Do'' None 1 1]\<rparr>"]
    e b
  show ?thesis by simp
qed

section \<open>Listing\<close>

lemma listTasks_Inr:
  assumes "listTasks L u rq st = Inr out"
  shows "\<exists>q. build_query L u rq = Some q
           \<and> mset out = mset (map (populate_both (users st)) (filter (matches q) (tasks st)))"
proof -
  from assms obtain q where q: "build_query L u rq = Some q"
    by (auto simp: listTasks_def split: option.splits)
  with assms have nr: "\<not> sort_refused L (query_sort rq)"
    by (auto simp: listTasks_def split: if_splits)
  let ?found = "map (populate_both (users st))
                   (sort_by (doc_le (sort_options (query_sort rq)))
                      (filter (matches q) (tasks st)))"
  have found: "mset ?found = mset (map (populate_both (users st)) (filter (matches q) (tasks st)))"
    by (simp add: mset_sort_by)
  have "mset out = mset ?found"
  proof (cases "truthy (query_sort rq)")
    case None
    with assms q nr show ?thesis by (simp add: listTasks_def)
  next
    case (Some s)
    show ?thesis
    proof (cases "includes_str s ''dueDate''")
      case True
      define A where "A = filter (\<lambda>v. dueDate (view_task v) \<noteq> None) ?found"
      define B where "B = filter (\<lambda>v. dueDate (view_task v) = None) ?found"
      from assms q nr Some True have "out = rev A @ B \<or> out = A @ B"
        unfolding A_def B_def by (simp add: listTasks_def Let_def split: if_splits)
      then have "mset out = mset A + mset B" by auto
      also have "\<dots> = mset ?found"
        unfolding A_def B_def by (rule mset_partition2) simp
      finally show ?thesis .
    next
      case False
      with assms q nr Some show ?thesis by (simp add: listTasks_def)
    qed
  qed
  with q found show ?thesis by simp
qed

lemma listTasks_succeeds:
  "(\<exists>res. listTasks L u rq st = Inr res)
     = ((truthy (query_dueDate rq) = None
         \<or> (\<exists>s d. truthy (query_dueDate rq) = Some s \<and> newDate L s = Some d))
        \<and> (truthy (query_sort rq) = None
           \<or> (\<exists>s. truthy (query_sort rq) = Some s \<and> sortable L (sort_field s))))"
proof -
  have q: "(build_query L u rq \<noteq> None)
             = (truthy (query_dueDate rq) = None
                \<or> (\<exists>s d. truthy (query_dueDate rq) = Some s \<and> newDate L s = Some d))"
    by (auto simp: build_query_def Let_def split: option.splits)
  have r: "(\<not> sort_refused L (query_sort rq))
             = (truthy (query_sort rq) = None
                \<or> (\<exists>s. truthy (query_sort rq) = Some s \<and> sortable L (sort_field s)))"
    by (auto simp: sort_refused_def split: option.splits)
  have "(\<exists>res. listTasks L u rq st = Inr res)
          = (build_query L u rq \<noteq> None \<and> \<not> sort_refused L (query_sort rq))"
    by (auto simp: listTasks_def Let_def split: option.splits)
  with q r show ?thesis by simp
qed

lemma view_task_populate_both: "view_task (populate_both us t) = t"
  by (simp add: populate_both_def)

lemma build_query_Some:
  "build_query L u rq = Some q \<Longrightarrow>
     q_or q = (if user_role u \<noteq> ''admin'' then Some (user_id u) else None)
   \<and> q_status q = truthy (query_status rq)
   \<and> q_priority q = truthy (query_priority rq)
   \<and> (case truthy (query_dueDate rq) of
         None \<Rightarrow> q_dueDate q = None
       | Some s \<Rightarrow> q_dueDate q \<noteq> None \<and> q_dueDate q = newDate L s)"
  by (auto simp: build_query_def Let_def split: option.splits)

text \<open>
  C1. Every task listed for a requester with the role \<open>user\<close> was created by the
  requester or is assigned to the requester. For a requester with the role \<open>admin\<close>
  the listed tasks are exactly the stored tasks that match the filters given (a
  non-empty status, a non-empty priority, a due date equal to the parsed parameter),
  each once and whoever owns it. The listing succeeds exactly when the due date
  parameter is empty or parses and the sort parameter is empty or names a path the
  store accepts as a sort key.
\<close>

theorem listTasks_visibility:
  "(listTasks L u rq st = Inr out \<longrightarrow> user_role u = ''user'' \<longrightarrow>
      (\<forall>v\<in>set out. createdBy (view_task v) = user_id u
                     \<or> assignedTo (view_task v) = Some (user_id u)))
   \<and> (listTasks L u rq st = Inr out \<longrightarrow> user_role u = ''admin'' \<longrightarrow>
        mset (map view_task out)
          = mset (filter (\<lambda>t.
               (\<forall>s. truthy (query_status rq) = Some s \<longrightarrow> status t = s)
             \<and> (\<forall>p. truthy (query_priority rq) = Some p \<longrightarrow> priority t = p)
             \<and> (\<forall>s. truthy (query_dueDate rq) = Some s \<longrightarrow>
                    newDate L s \<noteq> None \<and> dueDate t = newDate L s)) (tasks st)))
   \<and> ((\<exists>res. listTasks L u rq st = Inr res)
        = ((truthy (query_dueDate rq) = None
            \<or> (\<exists>s d. truthy (query_dueDate rq) = Some s \<and> newDate L s = Some d))
           \<and> (truthy (query_sort rq) = None
              \<or> (\<exists>s. truthy (query_sort rq) = Some s \<and> sortable L (sort_field s)))))"
proof (intro conjI impI)
  assume ok: "listTasks L u rq st = Inr out" and r: "user_role u = ''user''"
  from listTasks_Inr [OF ok] obtain q where q: "build_query L u rq = Some q"
    and m: "mset out = mset (map (populate_both (users st)) (filter (matches q) (tasks st)))"
    by blast
  from m have "set out = set (map (populate_both (users st)) (filter (matches q) (tasks st)))"
    by (metis set_mset_mset)
  moreover from build_query_Some [OF q] r have "q_or q = Some (user_id u)" by simp
  ultimately show "\<forall>v\<in>set out. createdBy (view_task v) = user_id u
                     \<or> assignedTo (view_task v) = Some (user_id u)"
    by (auto simp: view_task_populate_both matches_def)
next
  assume ok: "listTasks L u rq st = Inr out" and r: "user_role u = ''admin''"
  from listTasks_Inr [OF ok] obtain q where q: "build_query L u rq = Some q"
    and m: "mset out = mset (map (populate_both (users st)) (filter (matches q) (tasks st)))"
    by blast
  from m have "mset (map view_task out)
      = mset (map view_task (map (populate_both (users st)) (filter (matches q) (tasks st))))"
    by (metis mset_map)
  then have 1: "mset (map view_task out) = mset (filter (matches q) (tasks st))"
    by (simp add: comp_def view_task_populate_both)
  from build_query_Some [OF q] r have
    "matches q = (\<lambda>t.
               (\<forall>s. truthy (query_status rq) = Some s \<longrightarrow> status t = s)
             \<and> (\<forall>p. truthy (query_priority rq) = Some p \<longrightarrow> priority t = p)
             \<and> (\<forall>s. truthy (query_dueDate rq) = Some s \<longrightarrow>
                    newDate L s \<noteq> None \<and> dueDate t = newDate L s))"
    by (auto simp: matches_def fun_eq_iff split: option.splits)
  with 1 show "mset (map view_task out)
          = mset (filter (\<lambda>t.
               (\<forall>s. truthy (query_status rq) = Some s \<longrightarrow> status t = s)
             \<and> (\<forall>p. truthy (query_priority rq) = Some p \<longrightarrow> priority t = p)
             \<and> (\<forall>s. truthy (query_dueDate rq) = Some s \<longrightarrow>
                    newDate L s \<noteq> None \<and> dueDate t = newDate L s)) (tasks st))"
    by simp
next
  show "(\<exists>res. listTasks L u rq st = Inr res)
        = ((truthy (query_dueDate rq) = None
            \<or> (\<exists>s d. truthy (query_dueDate rq) = Some s \<and> newDate L s = Some d))
           \<and> (truthy (query_sort rq) = None
              \<or> (\<exists>s. truthy (query_sort rq) = Some s \<and> sortable L (sort_field s))))"
    by (rule listTasks_succeeds)
qed

theorem listTasks_visibility_witness:
  "listTasks sample_lib ada_req (sort_query None) store_ABC
     = Inr (map (populate_both [ada, bob]) [task_A, task_B])
   \<and> user_role ada_req = ''user''
   \<and> list_all (\<lambda>v. createdBy (view_task v) = user_id ada_req
                     \<or> assignedTo (view_task v) = Some (user_id ada_req))
       (map (populate_both [ada, bob]) [task_A, task_B])
   \<and> listTasks sample_lib admin_req (sort_query None) store_ABC
       = Inr (map (populate_both [ada, bob]) [task_A, task_B, task_C])
   \<and> user_role admin_req = ''admin''
   \<and> truthy (query_dueDate (sort_query None)) = None
   \<and> truthy (query_sort (sort_query None)) = None
   \<and> mset (map view_task (map (populate_both [ada, bob]) [task_A, task_B, task_C]))
       = mset (tasks store_ABC)"
proof -
  have e1: "listTasks sample_lib ada_req (sort_query None) store_ABC
              = Inr (map (populate_both [ada, bob]) [task_A, task_B])"
    by code_simp
  have r1: "user_role ada_req = ''user''" by (simp add: ada_req_def)
  have e2: "listTasks sample_lib admin_req (sort_query None) store_ABC
              = Inr (map (populate_both [ada, bob]) [task_A, task_B, task_C])"
    by code_simp
  have r2: "user_role admin_req = ''admin''" by (simp add: admin_req_def)
  have n: "truthy (query_dueDate (sort_query None)) = None
         \<and> truthy (query_sort (sort_query None)) = None
         \<and> truthy (query_status (sort_query None)) = None
         \<and> truthy (query_priority (sort_query None)) = None"
    by (simp add: sort_query_def truthy_def)
  from listTasks_visibility [of sample_lib ada_req "sort_query None" store_ABC
      "map (populate_both [ada, bob]) [task_A, task_B]"] e1 r1
  have 1: "list_all (\<lambda>v. createdBy (view_task v) = user_id ada_req
                     \<or> assignedTo (view_task v) = Some (user_id ada_req))
       (map (populate_both [ada, bob]) [task_A, task_B])"
    by (simp add: list_all_iff)
  from listTasks_visibility [of sample_lib admin_req "sort_query None" store_ABC
      "map (populate_both [ada, bob]) [task_A, task_B, task_C]"] e2 r2 n
  have 2: "mset (map view_task (map (populate_both [ada, bob]) [task_A, task_B, task_C]))
       = mset (tasks store_ABC)"
    by simp
  from e1 r1 1 e2 r2 n 2 show ?thesis by blast
qed

text \<open>
  The older route of \<open>routes/taskRoutes.js\<close> takes no filters: it lists all tasks
  for an admin and the requester's own and assigned tasks for everybody else.
\<close>

lemma listTasks_simple_visibility:
  "(user_role u = ''admin'' \<longrightarrow>
      (\<exists>out. listTasks_simple u st = Inr out \<and> map view_task out = tasks st))
   \<and> (user_role u \<noteq> ''admin'' \<longrightarrow>
        (\<exists>out. listTasks_simple u st = Inr out
           \<and> map view_task out
               = filter (\<lambda>t. createdBy t = user_id u \<or> assignedTo t = Some (user_id u))
                   (tasks st)))"
  by (simp add: listTasks_simple_def comp_def view_task_populate_both)

text \<open>
  Two more listings of the tasks A, B, C, created in this order: \<open>sort=-createdAt\<close>
  lists them newest first, and \<open>sort=-\<close>, which names the empty path, is refused by
  the store and answered with a ServerError.
\<close>

lemma listTasks_sort_examples:
  "listTasks sample_lib admin_req (sort_query (Some ''-createdAt'')) store_ABC
     = Inr (map (populate_both [ada, bob]) [task_C, task_B, task_A])
   \<and> listTasks sample_lib admin_req (sort_query (Some ''-'')) store_ABC = Inl ServerError"
proof -
  have 1: "listTasks sample_lib admin_req (sort_query (Some ''-createdAt'')) store_ABC
     = Inr (map (populate_both [ada, bob]) [task_C, task_B, task_A])"
    by code_simp
  have 2: "listTasks sample_lib admin_req (sort_query (Some ''-'')) store_ABC = Inl ServerError"
    by code_simp
  from 1 2 show ?thesis by blast
qed

section \<open>Sorting by due date\<close>

lemma sort_options_dueDate:
  assumes "truthy sp = Some s" and "s = ''dueDate'' \<or> s = ''-dueDate''"
  shows "sort_options sp = [(''dueDate'', sort_direction s), (''_id'', sort_direction s)]"
  using assms by (auto simp: sort_options_def sort_field_def startsWith_def Let_def)

lemma doc_le_dueDate_asc:
  "doc_le [(''dueDate'', 1), (''_id'', 1)] a b =
     (case (dueDate a, dueDate b) of
        (None, None) \<Rightarrow> task_id a \<le> task_id b
      | (None, Some y) \<Rightarrow> True
      | (Some x, None) \<Rightarrow> False
      | (Some x, Some y) \<Rightarrow> x < y \<or> (x = y \<and> task_id a \<le> task_id b))"
  by (auto simp: field_value_def split: option.splits)

lemma doc_le_dueDate_desc:
  "doc_le [(''dueDate'', - 1), (''_id'', - 1)] a b =
     (case (dueDate a, dueDate b) of
        (None, None) \<Rightarrow> task_id b \<le> task_id a
      | (None, Some y) \<Rightarrow> False
      | (Some x, None) \<Rightarrow> True
      | (Some x, Some y) \<Rightarrow> y < x \<or> (x = y \<and> task_id b \<le> task_id a))"
  by (auto simp: field_value_def split: option.splits)

lemma filter_map_populate:
  "map view_task (filter (\<lambda>v. P (view_task v)) (map (populate_both us) xs)) = filter P xs"
  by (induction xs) (auto simp: view_task_populate_both)

text \<open>
  What the route answers when the sort parameter is \<open>dueDate\<close> or \<open>-dueDate\<close>: the
  dated tasks, then the undated ones. In both directions the dated tasks are in
  ascending order of due date, ties in ascending id; the undated tasks are in ascending
  id for \<open>dueDate\<close> and in descending id for \<open>-dueDate\<close>.
\<close>

lemma listTasks_dueDate_order:
  assumes sp: "truthy (query_sort rq) = Some s"
    and s: "s = ''dueDate'' \<or> s = ''-dueDate''"
    and ok: "listTasks L u rq st = Inr out"
  shows "\<exists>D U. map view_task out = D @ U
       \<and> (\<forall>t\<in>set D. dueDate t \<noteq> None) \<and> (\<forall>t\<in>set U. dueDate t = None)
       \<and> sorted_wrt (\<lambda>a b. \<forall>x y. dueDate a = Some x \<longrightarrow> dueDate b = Some y \<longrightarrow>
                       x < y \<or> (x = y \<and> task_id a \<le> task_id b)) D
       \<and> sorted_wrt (\<lambda>a b. if s = ''dueDate'' then task_id a \<le> task_id b
                            else task_id b \<le> task_id a) U"
proof -
  from ok obtain q where q: "build_query L u rq = Some q"
    by (auto simp: listTasks_def split: option.splits)
  define spec where "spec = [(''dueDate'', sort_direction s), (''_id'', sort_direction s)]"
  define found where "found = sort_by (doc_le spec) (filter (matches q) (tasks st))"
  define A where "A = filter (\<lambda>t. dueDate t \<noteq> None) found"
  define B where "B = filter (\<lambda>t. dueDate t = None) found"
  have inc: "includes_str s ''dueDate''" using s by (auto simp: startsWith_def)
  have so: "sort_options (query_sort rq) = spec"
    unfolding spec_def using sp s by (rule sort_options_dueDate)
  have sorted: "sorted_wrt (doc_le spec) found"
    unfolding found_def by (rule sorted_store_sort)
  then have sA: "sorted_wrt (doc_le spec) A" and sB: "sorted_wrt (doc_le spec) B"
    unfolding A_def B_def by (simp_all add: sorted_wrt_filter)
  have dA: "\<forall>t\<in>set A. dueDate t \<noteq> None" and dB: "\<forall>t\<in>set B. dueDate t = None"
    by (simp_all add: A_def B_def)
  let ?views = "map (populate_both (users st)) found"
  have out: "out = (if sort_direction s = - 1
                    then rev (filter (\<lambda>v. dueDate (view_task v) \<noteq> None) ?views)
                         @ filter (\<lambda>v. dueDate (view_task v) = None) ?views
                    else filter (\<lambda>v. dueDate (view_task v) \<noteq> None) ?views
                         @ filter (\<lambda>v. dueDate (view_task v) = None) ?views)"
    using ok q sp inc so by (auto simp: listTasks_def Let_def found_def split: if_splits)
  have vt: "map view_task out = (if sort_direction s = - 1 then rev A @ B else A @ B)"
    using filter_map_populate [of "\<lambda>t. dueDate t \<noteq> None" "users st" found]
      filter_map_populate [of "\<lambda>t. dueDate t = None" "users st" found]
    unfolding out A_def B_def by (simp add: rev_map [symmetric])
  show ?thesis
  proof (cases "s = ''dueDate''")
    case True
    then have dir: "sort_direction s = 1" by (simp add: sort_direction_def startsWith_def)
    with vt have 1: "map view_task out = A @ B" by simp
    from dir have spec: "spec = [(''dueDate'', 1), (''_id'', 1)]" by (simp add: spec_def)
    have 2: "sorted_wrt (\<lambda>a b. \<forall>x y. dueDate a = Some x \<longrightarrow> dueDate b = Some y \<longrightarrow>
                       x < y \<or> (x = y \<and> task_id a \<le> task_id b)) A"
      using sA unfolding spec
      by (rule sorted_wrt_mono_rel [rotated]) (auto simp: doc_le_dueDate_asc simp del: doc_le.simps)
    have 3: "sorted_wrt (\<lambda>a b. task_id a \<le> task_id b) B"
      using sB unfolding spec
      by (rule sorted_wrt_mono_rel [rotated]) (use dB in \<open>auto simp: doc_le_dueDate_asc simp del: doc_le.simps\<close>)
    from 1 2 3 dA dB True show ?thesis
      by (intro exI [of _ A] exI [of _ B]) simp
  next
    case False
    with s have s': "s = ''-dueDate''" by simp
    then have dir: "sort_direction s = - 1" by (simp add: sort_direction_def startsWith_def)
    with vt have 1: "map view_task out = rev A @ B" by simp
    from dir have spec: "spec = [(''dueDate'', - 1), (''_id'', - 1)]" by (simp add: spec_def)
    have "sorted_wrt (\<lambda>b a. \<forall>x y. dueDate a = Some x \<longrightarrow> dueDate b = Some y \<longrightarrow>
                       x < y \<or> (x = y \<and> task_id a \<le> task_id b)) A"
      using sA unfolding spec
      by (rule sorted_wrt_mono_rel [rotated]) (auto simp: doc_le_dueDate_desc simp del: doc_le.simps)
    then have 2: "sorted_wrt (\<lambda>a b. \<forall>x y. dueDate a = Some x \<longrightarrow> dueDate b = Some y \<longrightarrow>
                       x < y \<or> (x = y \<and> task_id a \<le> task_id b)) (rev A)"
      by (simp add: sorted_wrt_rev)
    have 3: "sorted_wrt (\<lambda>a b. task_id b \<le> task_id a) B"
      using sB unfolding spec
      by (rule sorted_wrt_mono_rel [rotated]) (use dB in \<open>auto simp: doc_le_dueDate_desc simp del: doc_le.simps\<close>)
    from dA have dA': "\<forall>t\<in>set (rev A). dueDate t \<noteq> None" by simp
    from 1 2 3 dA' dB False show ?thesis
      by (intro exI [of _ "rev A"] exI [of _ B]) simp
  qed
qed


lemma sorted_wrt_mset_unique:
  assumes anti: "\<And>a b. a \<in> set xs \<Longrightarrow> b \<in> set xs \<Longrightarrow> R a b \<Longrightarrow> R b a \<Longrightarrow> a = b"
  shows "sorted_wrt R xs \<Longrightarrow> sorted_wrt R ys \<Longrightarrow> mset xs = mset ys \<Longrightarrow> xs = ys"
  using anti
proof (induction xs arbitrary: ys)
  case Nil
  then show ?case by simp
next
  case (Cons x xs)
  from Cons.prems(3) obtain y ys' where ys: "ys = y # ys'" by (cases ys) auto
  have xy: "x = y"
  proof (rule ccontr)
    assume ne: "x \<noteq> y"
    from Cons.prems(3) have sets: "set (x # xs) = set ys" by (metis set_mset_mset)
    with ys ne have "x \<in> set ys'" and "y \<in> set xs" by auto
    with Cons.prems(1,2) ys have "R y x" and "R x y" by auto
    moreover have "x \<in> set (x # xs)" and "y \<in> set (x # xs)" using \<open>y \<in> set xs\<close> by auto
    ultimately have "x = y" using Cons.prems(4) by blast
    with ne show False by simp
  qed
  from Cons.prems(1) have "sorted_wrt R xs" by simp
  moreover from Cons.prems(2) ys have "sorted_wrt R ys'" by simp
  moreover from xy Cons.prems(3) ys have "mset xs = mset ys'" by simp
  moreover have "\<And>a b. a \<in> set xs \<Longrightarrow> b \<in> set xs \<Longrightarrow> R a b \<Longrightarrow> R b a \<Longrightarrow> a = b"
    using Cons.prems(4) by simp
  ultimately have "xs = ys'" by (rule Cons.IH)
  with xy ys show ?case by simp
qed

lemma doc_le_dueDate_antisym:
  assumes "d = 1 \<or> d = - 1"
    and "doc_le [(''dueDate'', d), (''_id'', d)] a b"
    and "doc_le [(''dueDate'', d), (''_id'', d)] b a"
  shows "task_id a = task_id b"
  using assms
  by (auto simp: doc_le_dueDate_asc doc_le_dueDate_desc simp del: doc_le.simps
      split: option.splits)

text \<open>
  With unique ids, what the route answers for \<open>dueDate\<close> and \<open>-dueDate\<close> does not
  depend on the natural order of the store: two stores with the same tasks and users
  give the same list.
\<close>

lemma listTasks_dueDate_deterministic:
  assumes sp: "truthy (query_sort rq) = Some s"
    and s: "s = ''dueDate'' \<or> s = ''-dueDate''"
    and d: "distinct (map task_id (tasks st1))"
    and m: "mset (tasks st1) = mset (tasks st2)" and us: "users st1 = users st2"
  shows "listTasks L u rq st1 = listTasks L u rq st2"
proof (cases "build_query L u rq")
  case None
  then show ?thesis by (simp add: listTasks_def)
next
  case (Some q)
  define spec where "spec = [(''dueDate'', sort_direction s), (''_id'', sort_direction s)]"
  have so: "sort_options (query_sort rq) = spec"
    unfolding spec_def using sp s by (rule sort_options_dueDate)
  have dir: "sort_direction s = 1 \<or> sort_direction s = - 1"
    by (simp add: sort_direction_def)
  let ?f1 = "sort_by (doc_le spec) (filter (matches q) (tasks st1))"
  let ?f2 = "sort_by (doc_le spec) (filter (matches q) (tasks st2))"
  have inj: "a = b" if "a \<in> set (tasks st1)" and "b \<in> set (tasks st1)"
    and "task_id a = task_id b" for a b
    using d that by (meson distinct_map inj_onD)
  have "?f1 = ?f2"
  proof (rule sorted_wrt_mset_unique [where R = "doc_le spec"])
    show "sorted_wrt (doc_le spec) ?f1" by (rule sorted_store_sort)
    show "sorted_wrt (doc_le spec) ?f2" by (rule sorted_store_sort)
    show "mset ?f1 = mset ?f2" using m by (simp add: mset_sort_by)
    fix a b assume "a \<in> set ?f1" and "b \<in> set ?f1"
      and "doc_le spec a b" and "doc_le spec b a"
    then have "a \<in> set (tasks st1)" and "b \<in> set (tasks st1)" and "task_id a = task_id b"
      using doc_le_dueDate_antisym [OF dir, of a b]
      by (simp_all add: set_sort_by spec_def del: doc_le.simps)
    then show "a = b" by (rule inj)
  qed
  with Some so us show ?thesis by (simp add: listTasks_def)
qed

text \<open>
  C2. The tasks A (due 2024-01-01), B (no due date) and C (due 2024-06-01), listed
  with \<open>sort=-dueDate\<close>: the store returns C, A, B, and the route, which reverses
  the dated tasks once more, answers A, C, B. With \<open>sort=dueDate\<close> the store
  returns B, A, C and the route answers A, C, B.
\<close>

theorem listTasks_dueDate_example:
  "sort_by (doc_le (sort_options (Some ''-dueDate''))) (tasks store_ABC)
     = [task_C, task_A, task_B]
   \<and> listTasks sample_lib admin_req (sort_query (Some ''-dueDate'')) store_ABC
       = Inr (map (populate_both [ada, bob]) [task_A, task_C, task_B])
   \<and> sort_by (doc_le (sort_options (Some ''dueDate''))) (tasks store_ABC)
       = [task_B, task_A, task_C]
   \<and> listTasks sample_lib admin_req (sort_query (Some ''dueDate'')) store_ABC
       = Inr (map (populate_both [ada, bob]) [task_A, task_C, task_B])"
proof -
  have 1: "sort_by (doc_le (sort_options (Some ''-dueDate''))) (tasks store_ABC)
     = [task_C, task_A, task_B]"
    by code_simp
  have 2: "listTasks sample_lib admin_req (sort_query (Some ''-dueDate'')) store_ABC
       = Inr (map (populate_both [ada, bob]) [task_A, task_C, task_B])"
    by code_simp
  have 3: "sort_by (doc_le (sort_options (Some ''dueDate''))) (tasks store_ABC)
       = [task_B, task_A, task_C]"
    by code_simp
  have 4: "listTasks sample_lib admin_req (sort_query (Some ''dueDate'')) store_ABC
       = Inr (map (populate_both [ada, bob]) [task_A, task_C, task_B])"
    by code_simp
  from 1 2 3 4 show ?thesis by blast
qed

text \<open>
  C9. The tasks P and Q (ids 1 and 2, due the same day) and R and S (ids 3 and 4, no
  due date), listed with \<open>sort=-dueDate\<close>: the store returns Q, P, S, R, ties by
  descending id, and the route answers P, Q, S, R: the tie of the dated tasks is in
  ascending id and the tie of the undated tasks in descending id.
\<close>

theorem listTasks_tie_break_example:
  "sort_by (doc_le (sort_options (Some ''-dueDate''))) (tasks store_PQRS)
     = [task_Q, task_P, task_S, task_R]
   \<and> listTasks sample_lib admin_req (sort_query (Some ''-dueDate'')) store_PQRS
       = Inr (map (populate_both [ada, bob]) [task_P, task_Q, task_S, task_R])
   \<and> listTasks sample_lib admin_req (sort_query (Some ''dueDate'')) store_PQRS
       = Inr (map (populate_both [ada, bob]) [task_P, task_Q, task_R, task_S])"
proof -
  have 1: "sort_by (doc_le (sort_options (Some ''-dueDate''))) (tasks store_PQRS)
     = [task_Q, task_P, task_S, task_R]"
    by code_simp
  have 2: "listTasks sample_lib admin_req (sort_query (Some ''-dueDate'')) store_PQRS
       = Inr (map (populate_both [ada, bob]) [task_P, task_Q, task_S, task_R])"
    by code_simp
  have 3: "listTasks sample_lib admin_req (sort_query (Some ''dueDate'')) store_PQRS
       = Inr (map (populate_both [ada, bob]) [task_P, task_Q, task_R, task_S])"
    by code_simp
  from 1 2 3 show ?thesis by blast
qed

section \<open>The leaderboard\<close>

lemma map_fst_add_to_group:
  "map fst (add_to_group k gs)
     = (if k \<in> set (map fst gs) then map fst gs else map fst gs @ [k])"
  by (induction gs) (force simp: image_iff)+

lemma keys_add_to_group: "fst ` set (add_to_group k gs) = insert k (fst ` set gs)"
  using map_fst_add_to_group [of k gs]
  by (metis (no_types, lifting) Un_insert_right append_Nil2 insert_absorb list.simps(15)
      set_append set_map)

lemma distinct_add_to_group:
  "distinct (map fst gs) \<Longrightarrow> distinct (map fst (add_to_group k gs))"
  by (simp add: map_fst_add_to_group)

lemma map_of_add_to_group:
  "map_of (add_to_group k gs) k'
     = (if k' = k then Some (case map_of gs k of None \<Rightarrow> 1 | Some n \<Rightarrow> Suc n)
        else map_of gs k')"
  by (induction gs) auto

lemma distinct_group_fold:
  "distinct (map fst gs) \<Longrightarrow> distinct (map fst (foldl (\<lambda>gs k. add_to_group k gs) gs ks))"
  by (induction ks arbitrary: gs) (auto simp: distinct_add_to_group)

lemma keys_group_fold:
  "fst ` set (foldl (\<lambda>gs k. add_to_group k gs) gs ks) = fst ` set gs \<union> set ks"
  by (induction ks arbitrary: gs) (auto simp: keys_add_to_group)

lemma map_of_group_fold:
  "map_of (foldl (\<lambda>gs k. add_to_group k gs) gs ks) k
     = (case map_of gs k of
          None \<Rightarrow> if k \<in> set ks then Some (count_list ks k) else None
        | Some n \<Rightarrow> Some (n + count_list ks k))"
proof (induction ks arbitrary: gs)
  case Nil
  then show ?case by (simp split: option.splits)
next
  case (Cons a ks)
  show ?case
    by (simp add: Cons.IH map_of_add_to_group split: option.splits)
qed

lemma distinct_group_count: "distinct (map fst (group_count ks))"
  unfolding group_count_def by (rule distinct_group_fold) simp

lemma keys_group_count: "fst ` set (group_count ks) = set ks"
  unfolding group_count_def by (simp add: keys_group_fold)

lemma group_count_member:
  assumes "(k, n) \<in> set (group_count ks)"
  shows "k \<in> set ks \<and> n = count_list ks k"
proof -
  from assms have "map_of (group_count ks) k = Some n"
    by (simp add: distinct_group_count)
  then show ?thesis
    unfolding group_count_def by (simp add: map_of_group_fold split: if_splits)
qed

lemma count_list_map_filter:
  "count_list (map f (filter Q xs)) k = length (filter (\<lambda>x. Q x \<and> f x = k) xs)"
  by (induction xs) auto

lemma in_lookup_unwind:
  "r \<in> set (lookup_unwind us g)
     = (\<exists>u\<in>set us. fst g = Some (u_id u)
          \<and> r = \<lparr>row_id = u_id u, row_name = u_name u, row_email = u_email u,
                  completedTasks = snd g\<rparr>)"
  by (cases "fst g") (auto simp: lookup_unwind_def)

lemma length_filter_distinct:
  "distinct (map f xs) \<Longrightarrow> length (filter (\<lambda>x. f x = i) xs) \<le> 1"
proof (induction xs)
  case Nil
  then show ?case by simp
next
  case (Cons x xs)
  show ?case
  proof (cases "f x = i")
    case True
    with Cons.prems have "\<forall>y\<in>set xs. f y \<noteq> i" by (auto simp: image_iff)
    then have "filter (\<lambda>y. f y = i) xs = []" by (simp add: filter_empty_conv)
    with True show ?thesis by simp
  next
    case False
    with Cons show ?thesis by simp
  qed
qed

lemma distinct_lookup_unwind:
  assumes "distinct (map u_id us)"
  shows "distinct (map row_id (lookup_unwind us g))"
proof (cases "fst g")
  case None
  then show ?thesis by (simp add: lookup_unwind_def)
next
  case (Some i)
  have "length (filter (\<lambda>u. u_id u = i) us) \<le> 1"
    using assms by (rule length_filter_distinct)
  then have "length (map row_id (lookup_unwind us g)) \<le> 1"
    using Some by (simp add: lookup_unwind_def)
  then show ?thesis
    by (cases "map row_id (lookup_unwind us g)") (auto simp: le_Suc_eq)
qed

lemma distinct_rows:
  assumes "distinct (map u_id us)"
  shows "distinct (map fst G) \<Longrightarrow> distinct (map row_id (concat (map (lookup_unwind us) G)))"
proof (induction G)
  case Nil
  then show ?case by simp
next
  case (Cons g G)
  have "row_id r \<noteq> row_id r'"
    if "r \<in> set (lookup_unwind us g)" and "r' \<in> set (concat (map (lookup_unwind us) G))"
    for r r'
  proof
    assume eq: "row_id r = row_id r'"
    from that(1) have "fst g = Some (row_id r)" by (auto simp: in_lookup_unwind)
    moreover from that(2) obtain g' where "g' \<in> set G" and "fst g' = Some (row_id r')"
      by (auto simp: in_lookup_unwind)
    ultimately have "fst g \<in> fst ` set G" using eq by force
    with Cons.prems show False by simp
  qed
  with Cons distinct_lookup_unwind [OF assms, of g] show ?case
    by (auto simp: image_iff)
qed

text \<open>
  C5. With unique user ids the leaderboard has exactly one row for every user who is
  assigned at least one task with status "Completed"; the row carries the user's name
  and email and the number of those tasks; the rows are in descending order of that
  number, so a row with a larger count stands before every row with a smaller one.
  Tasks that are not completed are not counted.
\<close>

theorem leaderboard_rows:
  assumes "distinct (map u_id (users st))"
  shows "\<exists>rows. getLeaderboard st = Inr rows
     \<and> distinct (map row_id rows)
     \<and> row_id ` set rows
         = {i \<in> u_id ` set (users st).
              \<exists>t\<in>set (tasks st). status t = ''Completed'' \<and> assignedTo t = Some i}
     \<and> (\<forall>r\<in>set rows. \<exists>u\<in>set (users st).
            u_id u = row_id r \<and> row_name r = u_name u \<and> row_email r = u_email u
          \<and> completedTasks r
              = length (filter (\<lambda>t. status t = ''Completed'' \<and> assignedTo t = Some (row_id r))
                          (tasks st)))
     \<and> sorted_wrt (\<lambda>a b. completedTasks b \<le> completedTasks a) rows
     \<and> (\<forall>i j. i < length rows \<and> j < length rows
            \<and> completedTasks (rows ! j) < completedTasks (rows ! i) \<longrightarrow> i < j)"
proof -
  define ks where "ks = map assignedTo (filter (\<lambda>t. status t = ''Completed'') (tasks st))"
  define G where "G = group_count ks"
  define rows0 where "rows0 = concat (map (lookup_unwind (users st)) G)"
  define rows where "rows = sort_by (\<lambda>a b. completedTasks b \<le> completedTasks a) rows0"
  have res: "getLeaderboard st = Inr rows"
    by (simp add: getLeaderboard_def rows_def rows0_def G_def ks_def)
  have m: "mset rows = mset rows0" by (simp add: rows_def mset_sort_by)
  then have s: "set rows = set rows0" by (metis set_mset_mset)
  have d0: "distinct (map row_id rows0)"
    unfolding rows0_def G_def using assms distinct_group_count by (rule distinct_rows)
  from m have "mset (map row_id rows) = mset (map row_id rows0)" by (metis mset_map)
  with d0 have d: "distinct (map row_id rows)" by (metis distinct_count_atmost_1 set_mset_mset)
  have cnt: "count_list ks (Some i)
               = length (filter (\<lambda>t. status t = ''Completed'' \<and> assignedTo t = Some i) (tasks st))"
    for i by (simp add: ks_def count_list_map_filter)
  have inks: "(Some i \<in> set ks)
                = (\<exists>t\<in>set (tasks st). status t = ''Completed'' \<and> assignedTo t = Some i)" for i
    by (force simp: ks_def)
  have row: "r \<in> set rows0
              = (\<exists>u\<in>set (users st). Some (u_id u) \<in> set ks
                   \<and> r = \<lparr>row_id = u_id u, row_name = u_name u, row_email = u_email u,
                           completedTasks = count_list ks (Some (u_id u))\<rparr>)" for r
  proof
    assume "r \<in> set rows0"
    then obtain g u where g: "g \<in> set G" and u: "u \<in> set (users st)"
      and k: "fst g = Some (u_id u)"
      and r: "r = \<lparr>row_id = u_id u, row_name = u_name u, row_email = u_email u,
                    completedTasks = snd g\<rparr>"
      by (auto simp: rows0_def in_lookup_unwind)
    from g k have "(Some (u_id u), snd g) \<in> set (group_count ks)"
      by (metis G_def prod.collapse)
    from group_count_member [OF this] u r
    show "\<exists>u\<in>set (users st). Some (u_id u) \<in> set ks
            \<and> r = \<lparr>row_id = u_id u, row_name = u_name u, row_email = u_email u,
                    completedTasks = count_list ks (Some (u_id u))\<rparr>"
      by auto
  next
    assume "\<exists>u\<in>set (users st). Some (u_id u) \<in> set ks
              \<and> r = \<lparr>row_id = u_id u, row_name = u_name u, row_email = u_email u,
                      completedTasks = count_list ks (Some (u_id u))\<rparr>"
    then obtain u where u: "u \<in> set (users st)" and k: "Some (u_id u) \<in> set ks"
      and r: "r = \<lparr>row_id = u_id u, row_name = u_name u, row_email = u_email u,
                    completedTasks = count_list ks (Some (u_id u))\<rparr>"
      by blast
    from k have "Some (u_id u) \<in> fst ` set G" by (simp add: G_def keys_group_count)
    then obtain n where g: "(Some (u_id u), n) \<in> set G" by force
    then have "n = count_list ks (Some (u_id u))"
      unfolding G_def by (simp add: group_count_member)
    with g u r show "r \<in> set rows0"
      by (force simp: rows0_def in_lookup_unwind)
  qed
  have ids: "row_id ` set rows
         = {i \<in> u_id ` set (users st).
              \<exists>t\<in>set (tasks st). status t = ''Completed'' \<and> assignedTo t = Some i}"
    unfolding s
  proof (intro set_eqI iffI)
    fix i assume "i \<in> row_id ` set rows0"
    then obtain r where r: "r \<in> set rows0" and i: "i = row_id r" by blast
    from r obtain u where u: "u \<in> set (users st)" and k: "Some (u_id u) \<in> set ks"
      and "row_id r = u_id u"
      unfolding row by force
    with i have iu: "i = u_id u" by simp
    from k have "\<exists>t\<in>set (tasks st). status t = ''Completed'' \<and> assignedTo t = Some (u_id u)"
      by (simp only: inks)
    with u iu show "i \<in> {i \<in> u_id ` set (users st).
              \<exists>t\<in>set (tasks st). status t = ''Completed'' \<and> assignedTo t = Some i}"
      by blast
  next
    fix i assume "i \<in> {i \<in> u_id ` set (users st).
              \<exists>t\<in>set (tasks st). status t = ''Completed'' \<and> assignedTo t = Some i}"
    then obtain u where u: "u \<in> set (users st)" and i: "i = u_id u"
      and t: "\<exists>t\<in>set (tasks st). status t = ''Completed'' \<and> assignedTo t = Some i"
      by blast
    from t have "Some i \<in> set ks" by (simp only: inks)
    with u i have "\<lparr>row_id = u_id u, row_name = u_name u, row_email = u_email u,
                completedTasks = count_list ks (Some (u_id u))\<rparr> \<in> set rows0"
      unfolding row by blast
    then show "i \<in> row_id ` set rows0" using i by force
  qed
  have each: "\<forall>r\<in>set rows. \<exists>u\<in>set (users st).
            u_id u = row_id r \<and> row_name r = u_name u \<and> row_email r = u_email u
          \<and> completedTasks r
              = length (filter (\<lambda>t. status t = ''Completed'' \<and> assignedTo t = Some (row_id r))
                          (tasks st))"
  proof
    fix r assume "r \<in> set rows"
    then have "r \<in> set rows0" by (simp add: s)
    then obtain u where u: "u \<in> set (users st)"
      and r: "r = \<lparr>row_id = u_id u, row_name = u_name u, row_email = u_email u,
                    completedTasks = count_list ks (Some (u_id u))\<rparr>"
      unfolding row by blast
    from u r show "\<exists>u\<in>set (users st).
            u_id u = row_id r \<and> row_name r = u_name u \<and> row_email r = u_email u
          \<and> completedTasks r
              = length (filter (\<lambda>t. status t = ''Completed'' \<and> assignedTo t = Some (row_id r))
                          (tasks st))"
      by (intro bexI [of _ u]) (simp_all add: cnt)
  qed
  have sorted: "sorted_wrt (\<lambda>a b. completedTasks b \<le> completedTasks a) rows"
    unfolding rows_def by (rule sorted_sort_by) auto
  have rank: "\<forall>i j. i < length rows \<and> j < length rows
            \<and> completedTasks (rows ! j) < completedTasks (rows ! i) \<longrightarrow> i < j"
  proof (intro allI impI)
    fix i j assume a: "i < length rows \<and> j < length rows
            \<and> completedTasks (rows ! j) < completedTasks (rows ! i)"
    show "i < j"
    proof (rule ccontr)
      assume "\<not> i < j"
      with a have "j < i" by (cases "i = j") auto
      with sorted a have "completedTasks (rows ! i) \<le> completedTasks (rows ! j)"
        by (simp add: sorted_wrt_iff_nth_less)
      with a show False by simp
    qed
  qed
  from res d ids each sorted rank show ?thesis by blast
qed


theorem leaderboard_rows_witness:
  "distinct (map u_id (users store_board))
   \<and> getLeaderboard store_board = Inr board_rows
   \<and> map row_id board_rows = [2, 1]
   \<and> map completedTasks board_rows = [2, 1]"
proof -
  have h: "distinct (map u_id (users store_board))"
    by (simp add: store_board_def ada_def bob_def)
  have e: "getLeaderboard store_board = Inr board_rows"
    by code_simp
  from leaderboard_rows [OF h] e have "distinct (map row_id board_rows)"
    by auto
  with h e show ?thesis by (simp add: board_rows_def)
qed

lemma add_to_group_filter_other:
  "k \<noteq> x \<Longrightarrow>
     add_to_group k (filter (\<lambda>g. fst g \<noteq> x) gs) = filter (\<lambda>g. fst g \<noteq> x) (add_to_group k gs)"
  by (induction gs) auto

lemma filter_add_to_group_same:
  "filter (\<lambda>g. fst g \<noteq> x) (add_to_group x gs) = filter (\<lambda>g. fst g \<noteq> x) gs"
  by (induction gs) auto

lemma group_fold_filter:
  "foldl (\<lambda>gs k. add_to_group k gs) (filter (\<lambda>g. fst g \<noteq> x) gs) (filter (\<lambda>k. k \<noteq> x) ks)
     = filter (\<lambda>g. fst g \<noteq> x) (foldl (\<lambda>gs k. add_to_group k gs) gs ks)"
proof (induction ks arbitrary: gs)
  case Nil
  then show ?case by simp
next
  case (Cons k ks)
  show ?case
  proof (cases "k = x")
    case True
    then show ?thesis
      using Cons.IH [of "add_to_group x gs"] by (simp add: filter_add_to_group_same)
  next
    case False
    then show ?thesis
      using Cons.IH [of "add_to_group k gs"] by (simp add: add_to_group_filter_other)
  qed
qed

lemma group_count_filter:
  "group_count (filter (\<lambda>k. k \<noteq> x) ks) = filter (\<lambda>g. fst g \<noteq> x) (group_count ks)"
  unfolding group_count_def using group_fold_filter [of x "[]" ks] by simp

lemma concat_lookup_filter:
  assumes "filter (\<lambda>u. u_id u = i) us = []"
  shows "concat (map (lookup_unwind us) (filter (\<lambda>g. fst g \<noteq> Some i) G))
           = concat (map (lookup_unwind us) G)"
proof (induction G)
  case Nil
  then show ?case by simp
next
  case (Cons g G)
  show ?case
  proof (cases "fst g = Some i")
    case True
    with assms have "lookup_unwind us g = []" by (simp add: lookup_unwind_def)
    with True Cons show ?thesis by simp
  next
    case False
    with Cons show ?thesis by simp
  qed
qed

lemma completed_keys_filter:
  "map assignedTo (filter (\<lambda>t. assignedTo t \<noteq> Some i \<and> status t = ''Completed'') ts)
     = filter (\<lambda>k. k \<noteq> Some i) (map assignedTo (filter (\<lambda>t. status t = ''Completed'') ts))"
  by (induction ts) auto

text \<open>
  The update route does not look the assigned user up: a task can be assigned to an id
  that no user has.
\<close>

lemma updateTask_accepts_unknown_assignee:
  "findUserById (users store_ABC) 7 = None
   \<and> fst (updateTask sample_lib 1750000000000 ada_req ''000000000000000000000001'' body_reassign_7 store_ABC)
       = Inr (task_A\<lparr>status := ''Completed'', assignedTo := Some 7,
                      updatedAt := 1750000000000\<rparr>)"
  by code_simp

text \<open>
  C10. When no user has the id \<open>i\<close>, the leaderboard is computed without an error,
  it has no row for \<open>i\<close>, and it is the leaderboard of the store without the tasks
  assigned to \<open>i\<close>: the completed tasks of a missing assignee are counted nowhere.
\<close>

theorem leaderboard_dangling_assignee:
  assumes "findUserById (users st) i = None"
  shows "getLeaderboard st
           = getLeaderboard (st\<lparr>tasks := filter (\<lambda>t. assignedTo t \<noteq> Some i) (tasks st)\<rparr>)
       \<and> (\<exists>rows. getLeaderboard st = Inr rows \<and> i \<notin> row_id ` set rows)"
proof -
  from assms have none: "\<forall>u\<in>set (users st). u_id u \<noteq> i"
    by (simp add: findUserById_def find_None_iff)
  then have empty: "filter (\<lambda>u. u_id u = i) (users st) = []"
    by (simp add: filter_empty_conv)
  have 1: "getLeaderboard st
           = getLeaderboard (st\<lparr>tasks := filter (\<lambda>t. assignedTo t \<noteq> Some i) (tasks st)\<rparr>)"
    by (simp add: getLeaderboard_def completed_keys_filter group_count_filter
        concat_lookup_filter [OF empty])
  define rows where
    "rows = sort_by (\<lambda>a b. completedTasks b \<le> completedTasks a)
              (concat (map (lookup_unwind (users st))
                 (group_count
                    (map assignedTo (filter (\<lambda>t. status t = ''Completed'') (tasks st))))))"
  have res: "getLeaderboard st = Inr rows" by (simp add: getLeaderboard_def rows_def)
  have "row_id r \<noteq> i" if "r \<in> set rows" for r
  proof -
    from that obtain u where "u \<in> set (users st)" and "row_id r = u_id u"
      unfolding rows_def by (auto simp: set_sort_by in_lookup_unwind)
    with none show ?thesis by simp
  qed
  then have "i \<notin> row_id ` set rows" by blast
  with 1 res show ?thesis by blast
qed

theorem leaderboard_dangling_assignee_witness:
  "findUserById (users store_board) 7 = None
   \<and> length (filter (\<lambda>t. status t = ''Completed'' \<and> assignedTo t = Some 7)
               (tasks store_board)) = 3
   \<and> getLeaderboard store_board = Inr board_rows
   \<and> getLeaderboard (store_board\<lparr>tasks := filter (\<lambda>t. assignedTo t \<noteq> Some 7)
                                               (tasks store_board)\<rparr>) = Inr board_rows"
proof -
  have h: "findUserById (users store_board) 7 = None"
    by (simp add: findUserById_def store_board_def ada_def bob_def)
  have c: "length (filter (\<lambda>t. status t = ''Completed'' \<and> assignedTo t = Some 7)
               (tasks store_board)) = 3"
    by (simp add: store_board_def mk_task_def)
  have e: "getLeaderboard store_board = Inr board_rows"
    by code_simp
  from leaderboard_dangling_assignee [OF h] e h c show ?thesis by simp
qed

end
